theory Spec2Isabelle
  imports Complex_Main
begin

section \<open>Numbers and vectors\<close>

text \<open>
  The program is TypeScript and GLSL: every number is an IEEE floating-point value.
  This development reads them as real numbers, so \<open>+\<close>, \<open>*\<close>, \<open>sqrt\<close>,
  \<open>sin\<close>, \<open>cos\<close> and \<open>arccos\<close> are the exact operations and rounding is
  left out. The literals keep the values the source writes (\<open>0.05\<close> is \<open>5 / 100\<close>).
\<close>

datatype vec3 = Vec3 (vx: real) (vy: real) (vz: real)

section \<open>App.tsx: the gesture state and the progress loop\<close>

text \<open>
  \<^verbatim>\<open>HandGestureData\<close> of types.ts, and the argument object of
  \<^verbatim>\<open>onGestureUpdate\<close> / \<^verbatim>\<open>handleGestureUpdate\<close>.
\<close>

record HandGestureData =
  isOpen :: bool
  handPosition :: "real \<times> real"
  detected :: bool

record GestureUpdate =
  u_isOpen :: bool
  u_x :: real
  u_y :: real
  u_detected :: bool

text \<open>
  The state of the \<^verbatim>\<open>App\<close> component: \<^verbatim>\<open>gestureData\<close> (useState),
  \<^verbatim>\<open>progressRef.current\<close> (useRef) and \<^verbatim>\<open>animProgress\<close> (useState).
\<close>

record App_state =
  gestureData :: HandGestureData
  progressRef :: real
  animProgress :: real

definition App_init :: App_state where
  "App_init =
     \<lparr>gestureData = \<lparr>isOpen = False, handPosition = (0, 0), detected = False\<rparr>,
      progressRef = 0, animProgress = 0\<rparr>"

text \<open>\<^verbatim>\<open>const target = gestureData.isOpen ? 1 : 0;\<close>\<close>

definition target :: "HandGestureData \<Rightarrow> real" where
  "target g = (if isOpen g then 1 else 0)"

text \<open>
  One run of \<^verbatim>\<open>loop\<close> (one animation frame):
  \<^verbatim>\<open>progressRef.current += (target - progressRef.current) * 0.05;
  setAnimProgress(progressRef.current);\<close>
\<close>

definition loop :: "App_state \<Rightarrow> App_state" where
  "loop s =
     (let p = progressRef s + (target (gestureData s) - progressRef s) * 0.05
      in s\<lparr>progressRef := p, animProgress := p\<rparr>)"

definition handleGestureUpdate :: "GestureUpdate \<Rightarrow> App_state \<Rightarrow> App_state" where
  "handleGestureUpdate d s =
     s\<lparr>gestureData :=
         \<lparr>isOpen = u_isOpen d, handPosition = (u_x d, u_y d), detected = u_detected d\<rparr>\<rparr>"

text \<open>
  What happens to the component over time: an animation frame runs \<^verbatim>\<open>loop\<close>, a
  gesture sample runs \<^verbatim>\<open>handleGestureUpdate\<close>. The effect that owns the loop is
  restarted when \<^verbatim>\<open>gestureData.isOpen\<close> changes, so every frame reads the
  current \<^verbatim>\<open>isOpen\<close>.
\<close>

datatype event = Frame | Update GestureUpdate

fun App_step :: "App_state \<Rightarrow> event \<Rightarrow> App_state" where
  "App_step s Frame = loop s"
| "App_step s (Update d) = handleGestureUpdate d s"

fun App_run :: "event list \<Rightarrow> App_state \<Rightarrow> App_state" where
  "App_run [] s = s"
| "App_run (e # es) s = App_run es (App_step s e)"

fun frames :: "event list \<Rightarrow> nat" where
  "frames [] = 0"
| "frames (Frame # es) = Suc (frames es)"
| "frames (Update d # es) = frames es"

text \<open>Every sample of the run reports the open state \<open>b\<close>.\<close>

fun reports :: "bool \<Rightarrow> event \<Rightarrow> bool" where
  "reports b Frame = True"
| "reports b (Update d) = (u_isOpen d = b)"

text \<open>The props \<^verbatim>\<open>handX\<close> and \<^verbatim>\<open>handY\<close> that App passes to the camera rig.\<close>

definition handX :: "HandGestureData \<Rightarrow> real" where
  "handX g = (if detected g then fst (handPosition g) else 0)"

definition handY :: "HandGestureData \<Rightarrow> real" where
  "handY g = (if detected g then snd (handPosition g) else 0)"

text \<open>Both copies of the progress are in \<open>[0, 1]\<close>.\<close>

definition in_unit :: "App_state \<Rightarrow> bool" where
  "in_unit s =
     (0 \<le> progressRef s \<and> progressRef s \<le> 1 \<and> 0 \<le> animProgress s \<and> animProgress s \<le> 1)"

section \<open>App.tsx: the camera rig\<close>

text \<open>
  \<^verbatim>\<open>THREE.MathUtils.lerp(x, y, t)\<close> of three.js is \<^verbatim>\<open>(1 - t) * x + t * y\<close>.
  One frame of \<^verbatim>\<open>CameraRig\<close> moves the camera position; \<^verbatim>\<open>lookAt\<close> does
  not change the position and is left out.
\<close>

definition MathUtils_lerp :: "real \<Rightarrow> real \<Rightarrow> real \<Rightarrow> real" where
  "MathUtils_lerp x y t = (1 - t) * x + t * y"

definition CameraRig_frame :: "real \<Rightarrow> real \<Rightarrow> vec3 \<Rightarrow> vec3" where
  "CameraRig_frame targetX targetY camera_position =
     (let baseX = 0; BaseY = 2; BaseZ = 18;
          x = MathUtils_lerp (vx camera_position) (baseX + targetX * 10) 0.05;
          y = MathUtils_lerp (vy camera_position) (BaseY + targetY * 5) 0.05
      in Vec3 x y BaseZ)"

section \<open>GestureHandler.tsx: predict\<close>

text \<open>
  A hand is the list of its landmarks; only \<^verbatim>\<open>x\<close> and \<^verbatim>\<open>y\<close> are read.
  \<^verbatim>\<open>results.landmarks\<close> is \<open>None\<close> when the field is missing, else the list of
  hands. Reading \<^verbatim>\<open>.x\<close> of a landmark the hand does not have throws a TypeError.
\<close>

record Landmark =
  lm_x :: real
  lm_y :: real

datatype js_error = TypeError | RangeError

definition no_hand :: GestureUpdate where
  "no_hand = \<lparr>u_isOpen = False, u_x = 0, u_y = 0, u_detected = False\<rparr>"

definition tip_dist :: "Landmark \<Rightarrow> Landmark \<Rightarrow> real" where
  "tip_dist wrist tip = sqrt ((lm_x tip - lm_x wrist) ^ 2 + (lm_y tip - lm_y wrist) ^ 2)"

definition detect :: "Landmark list list option \<Rightarrow> js_error + GestureUpdate" where
  "detect results_landmarks =
     (case results_landmarks of
        None \<Rightarrow> Inr no_hand
      | Some [] \<Rightarrow> Inr no_hand
      | Some (landmarks # _) \<Rightarrow>
          if length landmarks < 21 then Inl TypeError
          else
            let wrist = landmarks ! 0; thumbTip = landmarks ! 4; indexTip = landmarks ! 8;
                middleTip = landmarks ! 12; ringTip = landmarks ! 16; pinkyTip = landmarks ! 20;
                centerX = (lm_x thumbTip + lm_x pinkyTip) / 2;
                centerY = (lm_y thumbTip + lm_y wrist) / 2;
                normalizedX = (centerX - 0.5) * 2;
                normalizedY = (centerY - 0.5) * 2;
                avgDist = foldl (\<lambda>acc tip. acc + tip_dist wrist tip) 0
                            [indexTip, middleTip, ringTip, pinkyTip] / 4;
                isOpen = (avgDist > 0.3)
            in Inr \<lparr>u_isOpen = isOpen, u_x = - normalizedX, u_y = - normalizedY,
                     u_detected = True\<rparr>)"

text \<open>
  One call of \<^verbatim>\<open>predict\<close>: \<open>None\<close> when the video has no new frame (the callback
  is not called and App keeps its \<^verbatim>\<open>gestureData\<close>), else the detection on the new
  frame, whose sample goes to \<^verbatim>\<open>onGestureUpdate\<close>.
\<close>

definition predict :: "Landmark list list option option \<Rightarrow> js_error + GestureUpdate option" where
  "predict new_frame =
     (case new_frame of
        None \<Rightarrow> Inr None
      | Some results_landmarks \<Rightarrow>
          (case detect results_landmarks of Inl e \<Rightarrow> Inl e | Inr d \<Rightarrow> Inr (Some d)))"

text \<open>
  The states the component reaches: \<^verbatim>\<open>handleGestureUpdate\<close> is only called by
  \<^verbatim>\<open>predict\<close>, as \<^verbatim>\<open>onGestureUpdate\<close>.
\<close>

inductive reachable :: "App_state \<Rightarrow> bool" where
  start: "reachable App_init"
| frame: "reachable s \<Longrightarrow> reachable (loop s)"
| sample: "reachable s \<Longrightarrow> predict new_frame = Inr (Some d) \<Longrightarrow>
           reachable (handleGestureUpdate d s)"


section \<open>three.js and GLSL operations\<close>

text \<open>
  The operations of three.js and of GLSL that the components call, as the library and the
  language define them. A \<^verbatim>\<open>Vector3\<close> method that writes its receiver is given
  here as the value it writes.
\<close>

definition vadd :: "vec3 \<Rightarrow> vec3 \<Rightarrow> vec3" where
  "vadd a b = Vec3 (vx a + vx b) (vy a + vy b) (vz a + vz b)"

text \<open>\<^verbatim>\<open>this.x = v1.x + (v2.x - v1.x) * alpha\<close>, and so for y and z.\<close>

definition lerpVectors :: "vec3 \<Rightarrow> vec3 \<Rightarrow> real \<Rightarrow> vec3" where
  "lerpVectors v1 v2 alpha =
     Vec3 (vx v1 + (vx v2 - vx v1) * alpha)
          (vy v1 + (vy v2 - vy v1) * alpha)
          (vz v1 + (vz v2 - vz v1) * alpha)"

text \<open>\<^verbatim>\<open>normalize()\<close> is \<^verbatim>\<open>this.divideScalar(this.length() || 1)\<close>.\<close>

definition vlength :: "vec3 \<Rightarrow> real" where
  "vlength v = sqrt (vx v * vx v + vy v * vy v + vz v * vz v)"

definition normalize :: "vec3 \<Rightarrow> vec3" where
  "normalize v =
     (let l = (if vlength v = 0 then 1 else vlength v)
      in Vec3 (vx v * (1 / l)) (vy v * (1 / l)) (vz v * (1 / l)))"

datatype quat = Quat (qx: real) (qy: real) (qz: real) (qw: real)

definition setFromAxisAngle :: "vec3 \<Rightarrow> real \<Rightarrow> quat" where
  "setFromAxisAngle axis angle =
     (let halfAngle = angle / 2; s = sin halfAngle
      in Quat (vx axis * s) (vy axis * s) (vz axis * s) (cos halfAngle))"

definition multiplyQuaternions :: "quat \<Rightarrow> quat \<Rightarrow> quat" where
  "multiplyQuaternions a b =
     Quat (qx a * qw b + qw a * qx b + qy a * qz b - qz a * qy b)
          (qy a * qw b + qw a * qy b + qz a * qx b - qx a * qz b)
          (qz a * qw b + qw a * qz b + qx a * qy b - qy a * qx b)
          (qw a * qw b - qx a * qx b - qy a * qy b - qz a * qz b)"

text \<open>\<^verbatim>\<open>rotation.set(x, y, z)\<close> in the default order XYZ, as the quaternion it sets.\<close>

definition setFromEuler :: "real \<Rightarrow> real \<Rightarrow> real \<Rightarrow> quat" where
  "setFromEuler x y z =
     (let c1 = cos (x / 2); c2 = cos (y / 2); c3 = cos (z / 2);
          s1 = sin (x / 2); s2 = sin (y / 2); s3 = sin (z / 2)
      in Quat (s1 * c2 * c3 + c1 * s2 * s3)
              (c1 * s2 * c3 - s1 * c2 * s3)
              (c1 * c2 * s3 + s1 * s2 * c3)
              (c1 * c2 * c3 - s1 * s2 * s3))"

text \<open>GLSL: \<^verbatim>\<open>clamp\<close>, \<^verbatim>\<open>smoothstep\<close> and \<^verbatim>\<open>mix\<close>.\<close>

definition clamp :: "real \<Rightarrow> real \<Rightarrow> real \<Rightarrow> real" where
  "clamp x lo hi = min (max x lo) hi"

definition smoothstep :: "real \<Rightarrow> real \<Rightarrow> real \<Rightarrow> real" where
  "smoothstep edge0 edge1 x =
     (let t = clamp ((x - edge0) / (edge1 - edge0)) 0 1 in t * t * (3 - 2 * t))"

definition mix :: "real \<Rightarrow> real \<Rightarrow> real \<Rightarrow> real" where
  "mix x y a = x * (1 - a) + y * a"

definition mix3 :: "vec3 \<Rightarrow> vec3 \<Rightarrow> real \<Rightarrow> vec3" where
  "mix3 u v a = Vec3 (mix (vx u) (vx v) a) (mix (vy u) (vy v) a) (mix (vz u) (vz v) a)"

section \<open>Math.random\<close>

text \<open>
  The values \<^verbatim>\<open>Math.random()\<close> returns, in the order of the calls; a generator
  carries the number of calls made so far. Each value is in \<open>[0, 1)\<close>.
\<close>

type_synonym rng = "nat \<Rightarrow> real"

definition unit_draws :: "rng \<Rightarrow> bool" where
  "unit_draws rnd = (\<forall>n. 0 \<le> rnd n \<and> rnd n < 1)"

section \<open>Foliage.tsx\<close>

text \<open>
  The three \<^verbatim>\<open>Float32Array\<close>s of the foliage. A write beyond the end of a typed
  array does nothing, as a list update beyond the end.
\<close>

record foliage_buffers =
  positions :: "real list"
  chaosPositions :: "real list"
  randoms :: "real list"

text \<open>The body of the \<^verbatim>\<open>for\<close> loop at index \<open>i\<close>, after \<open>c\<close> calls of Math.random.\<close>

definition foliage_body :: "rng \<Rightarrow> nat \<Rightarrow> nat \<times> foliage_buffers \<Rightarrow> nat \<times> foliage_buffers" where
  "foliage_body rnd i st =
     (let c = fst st; b = snd st;
          treeHeight = 14; maxRadius = 5;
          y = rnd c * treeHeight;
          radiusAtY = ((treeHeight - y) / treeHeight) * maxRadius;
          angle = rnd (c + 1) * pi * 2;
          r = sqrt (rnd (c + 2)) * radiusAtY;
          x = r * cos angle;
          z = r * sin angle;
          ps = (positions b)[i * 3 := x, i * 3 + 1 := y - (treeHeight / 3), i * 3 + 2 := z];
          chaosRadius = 15 + rnd (c + 3) * 10;
          theta = rnd (c + 4) * pi * 2;
          phi = arccos ((rnd (c + 5) * 2) - 1);
          cs = (chaosPositions b)
                 [i * 3 := chaosRadius * sin phi * cos theta,
                  i * 3 + 1 := chaosRadius * sin phi * sin theta,
                  i * 3 + 2 := chaosRadius * cos phi];
          rs = (randoms b)[i := rnd (c + 6)]
      in (c + 7, \<lparr>positions = ps, chaosPositions = cs, randoms = rs\<rparr>))"

function foliage_for :: "rng \<Rightarrow> nat \<Rightarrow> nat \<Rightarrow> nat \<times> foliage_buffers \<Rightarrow> nat \<times> foliage_buffers" where
  "foliage_for rnd count i st =
     (if i < count then foliage_for rnd count (Suc i) (foliage_body rnd i st) else st)"
  by pat_completeness auto
termination
  by (relation "measure (\<lambda>(rnd, count, i, st). count - i)") auto

declare foliage_for.simps [simp del]

definition Foliage_count :: nat where
  "Foliage_count = 15000"

text \<open>The \<^verbatim>\<open>useMemo\<close> of Foliage, run after \<open>c\<close> calls of Math.random.\<close>

definition Foliage_useMemo :: "rng \<Rightarrow> nat \<Rightarrow> nat \<times> foliage_buffers" where
  "Foliage_useMemo rnd c =
     foliage_for rnd Foliage_count 0
       (c, \<lparr>positions = replicate (Foliage_count * 3) 0,
            chaosPositions = replicate (Foliage_count * 3) 0,
            randoms = replicate Foliage_count 0\<rparr>)"

text \<open>The vertex at index \<open>i\<close> of a buffer of triples.\<close>

definition triple_at :: "real list \<Rightarrow> nat \<Rightarrow> vec3" where
  "triple_at xs i = Vec3 (xs ! (i * 3)) (xs ! (i * 3 + 1)) (xs ! (i * 3 + 2))"

text \<open>
  The vertex shader: \<^verbatim>\<open>finalPos\<close>, from the uniforms and the attributes of one
  vertex.
\<close>

definition chaosMovement :: "real \<Rightarrow> vec3 \<Rightarrow> real \<Rightarrow> vec3" where
  "chaosMovement uTime aChaosPos aRandom =
     vadd aChaosPos
       (Vec3 (sin (uTime * 0.5 + aRandom * 10.0) * 0.5)
             (cos (uTime * 0.3 + aRandom * 20.0) * 0.5)
             (sin (uTime * 0.7 + aRandom * 30.0) * 0.5))"

definition finalPos :: "real \<Rightarrow> real \<Rightarrow> vec3 \<Rightarrow> vec3 \<Rightarrow> real \<Rightarrow> vec3" where
  "finalPos uTime uProgress position aChaosPos aRandom =
     (let t = smoothstep 0.0 1.0 uProgress
      in mix3 position (chaosMovement uTime aChaosPos aRandom) t)"

text \<open>The vector the shader adds to \<^verbatim>\<open>aChaosPos\<close>: the noise of a vertex.\<close>

definition foliage_noise :: "real \<Rightarrow> real \<Rightarrow> vec3" where
  "foliage_noise time aRandom =
     Vec3 (sin (time * 0.5 + aRandom * 10.0) * 0.5)
          (cos (time * 0.3 + aRandom * 20.0) * 0.5)
          (sin (time * 0.7 + aRandom * 30.0) * 0.5)"

text \<open>
  The frame callback of Foliage writes the two uniforms and nothing else; the buffers
  are the attributes bound to the geometry.
\<close>

record Foliage_state =
  buffers :: foliage_buffers
  uTime :: real
  uProgress :: real
  shaderRef :: bool

definition Foliage_frame :: "real \<Rightarrow> real \<Rightarrow> Foliage_state \<Rightarrow> Foliage_state" where
  "Foliage_frame elapsedTime progress s =
     (if shaderRef s then s\<lparr>uTime := elapsedTime, uProgress := progress\<rparr> else s)"

fun Foliage_frames :: "(real \<times> real) list \<Rightarrow> Foliage_state \<Rightarrow> Foliage_state" where
  "Foliage_frames [] s = s"
| "Foliage_frames (tp # tps) s = Foliage_frames tps (Foliage_frame (fst tp) (snd tp) s)"

section \<open>Ornaments.tsx\<close>

text \<open>
  A \<^verbatim>\<open>Vector3\<close> is an object: two names can stand for the same one, and a method
  writes it in place. The store holds the \<^verbatim>\<open>Vector3\<close> objects by address;
  \<^verbatim>\<open>new THREE.Vector3(...)\<close> appends one, and its address is the length of the
  store before. Every address the program holds is below the length of the store.
\<close>

type_synonym ref = nat

type_synonym store = "vec3 list"

text \<open>
  \<^verbatim>\<open>new THREE.Color(v)\<close>: a string sets the colour from that style; on
  \<^verbatim>\<open>undefined\<close> the constructor's white stays. An array read outside the array
  gives \<^verbatim>\<open>undefined\<close>.
\<close>

datatype Color = Style string | White

definition THREE_Color :: "string option \<Rightarrow> Color" where
  "THREE_Color v = (case v of Some style \<Rightarrow> Style style | None \<Rightarrow> White)"

definition array_at :: "'a list \<Rightarrow> int \<Rightarrow> 'a option" where
  "array_at xs i = (if 0 \<le> i \<and> i < int (length xs) then Some (xs ! nat i) else None)"

record Ornament =
  formPos :: ref
  chaosPos :: ref
  scale :: real
  rotSpeed :: real
  rotAxis :: ref
  color :: Color
  randomOffset :: real

text \<open>
  The function given to \<^verbatim>\<open>map\<close>, after \<open>c\<close> calls of Math.random and on the
  store \<open>h\<close>. The axis is built first, the two positions in the returned object.
\<close>

definition Ornaments_item :: "rng \<Rightarrow> string list \<Rightarrow> nat \<times> store \<Rightarrow> Ornament \<times> (nat \<times> store)" where
  "Ornaments_item rnd colorPalette st =
     (let c = fst st; h = snd st;
          treeHeight = 12; maxRadius = 5.5;
          y = rnd c * treeHeight;
          rAtY = ((treeHeight - y) / treeHeight) * maxRadius;
          angle = rnd (c + 1) * pi * 2;
          r = rAtY * (0.8 + rnd (c + 2) * 0.3);
          formX = r * cos angle;
          formY = y - (treeHeight / 3);
          formZ = r * sin angle;
          chaosRadius = 10 + rnd (c + 3) * 15;
          theta = rnd (c + 4) * pi * 2;
          phi = arccos ((rnd (c + 5) * 2) - 1);
          chaosX = chaosRadius * sin phi * cos theta;
          chaosY = chaosRadius * sin phi * sin theta;
          chaosZ = chaosRadius * cos phi;
          scale = 0.3 + rnd (c + 6) * 0.4;
          rotSpeed = (rnd (c + 7) - 0.5) * 2;
          rotAxis = length h;
          h1 = h @ [normalize (Vec3 (rnd (c + 8)) (rnd (c + 9)) (rnd (c + 10)))];
          color = THREE_Color
                    (array_at colorPalette \<lfloor>rnd (c + 11) * real (length colorPalette)\<rfloor>);
          formPos = length h1;
          h2 = h1 @ [Vec3 formX formY formZ];
          chaosPos = length h2;
          h3 = h2 @ [Vec3 chaosX chaosY chaosZ];
          randomOffset = rnd (c + 12) * 100
      in (\<lparr>formPos = formPos, chaosPos = chaosPos, scale = scale, rotSpeed = rotSpeed,
           rotAxis = rotAxis, color = color, randomOffset = randomOffset\<rparr>,
          (c + 13, h3)))"

text \<open>
  The formed position of the ornament that draws from call \<open>c\<close> on: the vector the
  function above stores at \<^verbatim>\<open>formPos\<close>.
\<close>

definition Ornaments_formed :: "rng \<Rightarrow> nat \<Rightarrow> vec3" where
  "Ornaments_formed rnd c =
     (let treeHeight = 12; maxRadius = 5.5;
          y = rnd c * treeHeight;
          rAtY = ((treeHeight - y) / treeHeight) * maxRadius;
          angle = rnd (c + 1) * pi * 2;
          r = rAtY * (0.8 + rnd (c + 2) * 0.3)
      in Vec3 (r * cos angle) (y - (treeHeight / 3)) (r * sin angle))"

fun Ornaments_map :: "rng \<Rightarrow> string list \<Rightarrow> nat \<Rightarrow> nat \<times> store \<Rightarrow> Ornament list \<times> (nat \<times> store)" where
  "Ornaments_map rnd colorPalette 0 st = ([], st)"
| "Ornaments_map rnd colorPalette (Suc n) st =
     (let item = Ornaments_item rnd colorPalette st;
          rest = Ornaments_map rnd colorPalette n (snd item)
      in (fst item # fst rest, snd rest))"

text \<open>
  The \<^verbatim>\<open>useMemo\<close> of Ornaments: \<^verbatim>\<open>new Array(count).fill(0).map(...)\<close>.
  \<^verbatim>\<open>new Array(count)\<close> throws a RangeError unless \<open>count\<close> is an integer from 0 to
  \<open>2\<^sup>3\<^sup>2 - 1\<close>; \<open>count\<close> is an integer here.
\<close>

definition Ornaments_useMemo ::
  "rng \<Rightarrow> string list \<Rightarrow> int \<Rightarrow> nat \<times> store \<Rightarrow> js_error + Ornament list \<times> (nat \<times> store)" where
  "Ornaments_useMemo rnd colorPalette count st =
     (if count < 0 \<or> 2 ^ 32 \<le> count then Inl RangeError
      else Inr (Ornaments_map rnd colorPalette (nat count) st))"

text \<open>
  \<^verbatim>\<open>tempObj\<close>, an \<^verbatim>\<open>Object3D\<close>: its position and its scale are
  \<^verbatim>\<open>Vector3\<close> objects of its own, its orientation is a quaternion (the Euler
  \<^verbatim>\<open>rotation\<close> is kept equal to it by three.js). The constructor gives the object
  a uuid, which three.js draws by four calls of Math.random; the uuid itself is not
  kept. The matrix of an instance is kept as the three values \<^verbatim>\<open>updateMatrix\<close>
  composes it from.
\<close>

record Object3D =
  o_position :: ref
  o_quaternion :: quat
  o_scale :: ref

definition uuid_draws :: nat where
  "uuid_draws = 4"

definition new_Object3D :: "nat \<times> store \<Rightarrow> Object3D \<times> (nat \<times> store)" where
  "new_Object3D st =
     (let c = fst st; h = snd st
      in (\<lparr>o_position = length h, o_quaternion = Quat 0 0 0 1, o_scale = length h + 1\<rparr>,
          (c + uuid_draws, h @ [Vec3 0 0 0, Vec3 1 1 1])))"

record Transform =
  m_position :: vec3
  m_quaternion :: quat
  m_scale :: vec3

definition identity :: Transform where
  "identity = \<lparr>m_position = Vec3 0 0 0, m_quaternion = Quat 0 0 0 1, m_scale = Vec3 1 1 1\<rparr>"

text \<open>
  What a render of Ornaments holds: the store, \<^verbatim>\<open>data\<close>, \<^verbatim>\<open>tempObj\<close>, the
  instance matrices of the mesh (\<open>None\<close> while \<^verbatim>\<open>meshRef.current\<close> is null) and
  the \<^verbatim>\<open>instanceColor\<close> of the mesh (\<open>None\<close> while it is null, as on a new mesh).
\<close>

record Ornaments_state =
  heap :: store
  data :: "Ornament list"
  tempObj :: Object3D
  meshRef :: "Transform list option"
  instanceColor :: "Color list option"

text \<open>The function given to \<^verbatim>\<open>data.forEach\<close> in the frame callback, for \<open>(d, i)\<close>.\<close>

definition Ornaments_each :: "real \<Rightarrow> real \<Rightarrow> Ornaments_state \<Rightarrow> Ornament \<times> nat \<Rightarrow> Ornaments_state" where
  "Ornaments_each t lerpFactor s di =
     (let d = fst di; i = snd di;
          currentPos = length (heap s);
          h1 = heap s @ [Vec3 0 0 0];
          h2 = h1[currentPos := lerpVectors (h1 ! formPos d) (h1 ! chaosPos d) lerpFactor];
          h3 = h2[currentPos :=
                 Vec3 (vx (h2 ! currentPos))
                      (vy (h2 ! currentPos) + sin (t * 1.0 + randomOffset d) * 0.1)
                      (vz (h2 ! currentPos))];
          h4 = h3[o_position (tempObj s) := h3 ! currentPos];
          q = (if lerpFactor > 0.5
               then multiplyQuaternions (o_quaternion (tempObj s))
                      (setFromAxisAngle (h4 ! rotAxis d) (rotSpeed d * 0.1))
               else setFromEuler 0 (t * 0.2 + randomOffset d) 0);
          h5 = h4[o_scale (tempObj s) := Vec3 (scale d) (scale d) (scale d)];
          matrix = \<lparr>m_position = h5 ! o_position (tempObj s), m_quaternion = q,
                    m_scale = h5 ! o_scale (tempObj s)\<rparr>
      in s\<lparr>heap := h5,
           tempObj := (tempObj s)\<lparr>o_quaternion := q\<rparr>,
           meshRef := map_option (\<lambda>m. m[i := matrix]) (meshRef s)\<rparr>)"

text \<open>The frame callback, at elapsed time \<open>t\<close> with the prop \<open>progress\<close>.\<close>

definition Ornaments_frame :: "real \<Rightarrow> real \<Rightarrow> Ornaments_state \<Rightarrow> Ornaments_state" where
  "Ornaments_frame t progress s =
     (case meshRef s of
        None \<Rightarrow> s
      | Some m \<Rightarrow>
          foldl (Ornaments_each t progress) s (zip (data s) [0..<length (data s)]))"

text \<open>
  The frame callbacks of one render, one after the other, each at its time and with the
  progress it reads. A render of the component in between is \<open>Ornaments_render\<close>
  below.
\<close>

fun Ornaments_frames :: "(real \<times> real) list \<Rightarrow> Ornaments_state \<Rightarrow> Ornaments_state" where
  "Ornaments_frames [] s = s"
| "Ornaments_frames (tp # tps) s = Ornaments_frames tps (Ornaments_frame (fst tp) (snd tp) s)"

text \<open>
  \<^verbatim>\<open>setColorAt(i, color)\<close> on a mesh of \<open>n\<close> instances: a null
  \<^verbatim>\<open>instanceColor\<close> is first made, all white. The layout effect sets the colour of
  every instance and then writes \<^verbatim>\<open>instanceColor!.needsUpdate\<close>, a TypeError when
  \<^verbatim>\<open>instanceColor\<close> is still null.
\<close>

definition setColorAt :: "nat \<Rightarrow> nat \<Rightarrow> Color \<Rightarrow> Color list option \<Rightarrow> Color list option" where
  "setColorAt n i c ic =
     Some ((case ic of None \<Rightarrow> replicate n White | Some cs \<Rightarrow> cs)[i := c])"

definition Ornaments_useLayoutEffect :: "Ornaments_state \<Rightarrow> js_error + Ornaments_state" where
  "Ornaments_useLayoutEffect s =
     (case meshRef s of
        None \<Rightarrow> Inr s
      | Some m \<Rightarrow>
          (case foldl (\<lambda>ic di. setColorAt (length m) (snd di) (color (fst di)) ic)
                  (instanceColor s) (zip (data s) [0..<length (data s)]) of
             None \<Rightarrow> Inl TypeError
           | Some cs \<Rightarrow> Inr (s\<lparr>instanceColor := Some cs\<rparr>)))"

text \<open>
  A render in which \<^verbatim>\<open>useMemo\<close> runs its function, after \<open>c\<close> calls of
  Math.random and on the store \<open>h\<close>: \<^verbatim>\<open>tempObj\<close>, then \<^verbatim>\<open>data\<close>, then the
  mesh of \<open>count\<close> instances that the host builds from the returned element, then the
  layout effect. The first render is such a render, on the empty store.
\<close>

definition Ornaments_build ::
  "rng \<Rightarrow> string list \<Rightarrow> int \<Rightarrow> nat \<times> store \<Rightarrow> js_error + Ornaments_state" where
  "Ornaments_build rnd colorPalette count st =
     (let obj = new_Object3D st
      in case Ornaments_useMemo rnd colorPalette count (snd obj) of
           Inl e \<Rightarrow> Inl e
         | Inr r \<Rightarrow>
             Ornaments_useLayoutEffect
               \<lparr>heap = snd (snd r), data = fst r, tempObj = fst obj,
                meshRef = Some (replicate (nat count) identity), instanceColor = None\<rparr>)"

definition Ornaments_mount :: "rng \<Rightarrow> string list \<Rightarrow> int \<Rightarrow> nat \<Rightarrow> js_error + Ornaments_state" where
  "Ornaments_mount rnd colorPalette count c = Ornaments_build rnd colorPalette count (c, [])"

text \<open>
  The props of Ornaments. An array is an object: \<^verbatim>\<open>useMemo\<close> compares the
  dependencies of two renders with \<^verbatim>\<open>Object.is\<close>, numbers and strings by value
  and an array by its identity, not by its items.
\<close>

datatype ornament_type = ball | gift

record js_array =
  array_id :: nat
  array_items :: "string list"

record Ornaments_props =
  prop_progress :: real
  prop_type :: ornament_type
  prop_count :: int
  prop_colorPalette :: js_array

text \<open>
  A render of \<^verbatim>\<open>SceneContent\<close> (App.tsx), as the props it gives its two Ornaments:
  each \<^verbatim>\<open>colorPalette\<close> is an array literal in the element, a new array in every
  render. \<open>next\<close> counts the arrays made so far. React renders
  \<^verbatim>\<open>SceneContent\<close> again whenever \<^verbatim>\<open>setAnimProgress\<close> or
  \<^verbatim>\<open>setGestureData\<close> changes the state of App.
\<close>

definition SceneContent :: "real \<Rightarrow> nat \<Rightarrow> (Ornaments_props \<times> Ornaments_props) \<times> nat" where
  "SceneContent progress_prop next =
     ((\<lparr>prop_progress = progress_prop, prop_type = ball, prop_count = 200,
        prop_colorPalette =
          \<lparr>array_id = next,
           array_items = [''#FFD700'', ''#C0C0C0'', ''#D4AF37'', ''#B8860B'']\<rparr>\<rparr>,
       \<lparr>prop_progress = progress_prop, prop_type = gift, prop_count = 50,
        prop_colorPalette =
          \<lparr>array_id = next + 1, array_items = [''#800000'', ''#004225'', ''#FFFFFF'']\<rparr>\<rparr>),
      next + 2)"

text \<open>
  A mounted Ornaments: the state of its last render, the dependencies
  \<^verbatim>\<open>[count, type, colorPalette]\<close> that render gave \<^verbatim>\<open>useMemo\<close>, and the
  progress its frame callback reads.
\<close>

record Ornaments_instance =
  scene :: Ornaments_state
  memo_deps :: "int \<times> ornament_type \<times> nat"
  frame_progress :: real

definition dependencies :: "Ornaments_props \<Rightarrow> int \<times> ornament_type \<times> nat" where
  "dependencies props = (prop_count props, prop_type props, array_id (prop_colorPalette props))"

definition Ornaments_first_render :: "rng \<Rightarrow> nat \<Rightarrow> Ornaments_props \<Rightarrow> js_error + Ornaments_instance" where
  "Ornaments_first_render rnd c props =
     (case Ornaments_mount rnd (array_items (prop_colorPalette props)) (prop_count props) c of
        Inl e \<Rightarrow> Inl e
      | Inr s \<Rightarrow>
          Inr \<lparr>scene = s, memo_deps = dependencies props, frame_progress = prop_progress props\<rparr>)"

text \<open>
  A later render, after \<open>c\<close> calls of Math.random. \<^verbatim>\<open>tempObj\<close> is a new object
  in every render, and so is the geometry, so the host builds the mesh again. With the
  dependencies of the render before, \<^verbatim>\<open>useMemo\<close> gives \<^verbatim>\<open>data\<close> back and the
  layout effect, which depends on \<^verbatim>\<open>data\<close>, does not run; with other dependencies
  \<^verbatim>\<open>useMemo\<close> runs its function again.
\<close>

definition Ornaments_render ::
  "rng \<Rightarrow> nat \<Rightarrow> Ornaments_props \<Rightarrow> Ornaments_instance \<Rightarrow> js_error + Ornaments_instance" where
  "Ornaments_render rnd c props inst =
     (if dependencies props = memo_deps inst
      then
        (let obj = new_Object3D (c, heap (scene inst))
         in Inr (inst\<lparr>scene := (scene inst)
                        \<lparr>heap := snd (snd obj), tempObj := fst obj,
                         meshRef := Some (replicate (nat (prop_count props)) identity),
                         instanceColor := None\<rparr>,
                      frame_progress := prop_progress props\<rparr>))
      else
        (case Ornaments_build rnd (array_items (prop_colorPalette props)) (prop_count props)
                (c, heap (scene inst)) of
           Inl e \<Rightarrow> Inl e
         | Inr s \<Rightarrow>
             Inr \<lparr>scene = s, memo_deps = dependencies props,
                  frame_progress = prop_progress props\<rparr>))"

text \<open>The frame callback of a mounted Ornaments, at elapsed time \<open>t\<close>.\<close>

definition Ornaments_useFrame :: "real \<Rightarrow> Ornaments_instance \<Rightarrow> Ornaments_instance" where
  "Ornaments_useFrame t inst =
     inst\<lparr>scene := Ornaments_frame t (frame_progress inst) (scene inst)\<rparr>"

text \<open>
  The addresses of a state are apart: those of \<^verbatim>\<open>tempObj\<close> and those of the
  entities are in the store, and no vector of an entity is a vector of \<^verbatim>\<open>tempObj\<close>.
\<close>

definition apart :: "Ornaments_state \<Rightarrow> bool" where
  "apart s =
     (o_position (tempObj s) < length (heap s) \<and> o_scale (tempObj s) < length (heap s)
      \<and> o_position (tempObj s) \<noteq> o_scale (tempObj s)
      \<and> list_all (\<lambda>d. formPos d < length (heap s) \<and> chaosPos d < length (heap s)
                       \<and> rotAxis d < length (heap s)
                       \<and> formPos d \<noteq> o_position (tempObj s) \<and> formPos d \<noteq> o_scale (tempObj s)
                       \<and> chaosPos d \<noteq> o_position (tempObj s) \<and> chaosPos d \<noteq> o_scale (tempObj s)
                       \<and> rotAxis d \<noteq> o_position (tempObj s) \<and> rotAxis d \<noteq> o_scale (tempObj s))
           (data s))"

text \<open>
  A mounted state: the addresses are apart and the mesh is there, with one instance for
  each entity.
\<close>

definition mounted :: "Ornaments_state \<Rightarrow> bool" where
  "mounted s =
     (apart s \<and> (case meshRef s of None \<Rightarrow> False | Some m \<Rightarrow> length m = length (data s)))"

text \<open>
  The float of entity \<open>k\<close> at time \<open>t\<close>, and the position made of the two static
  positions of entity \<open>k\<close> at the factor \<open>p\<close> and of that float.
\<close>

definition floating :: "real \<Rightarrow> Ornament \<Rightarrow> vec3" where
  "floating t d = Vec3 0 (sin (t * 1.0 + randomOffset d) * 0.1) 0"

definition written_position :: "real \<Rightarrow> real \<Rightarrow> Ornaments_state \<Rightarrow> nat \<Rightarrow> vec3" where
  "written_position t p s k =
     vadd (lerpVectors (heap s ! formPos (data s ! k)) (heap s ! chaosPos (data s ! k)) p)
          (Vec3 0 (sin (t * 1.0 + randomOffset (data s ! k)) * 0.1) 0)"

section \<open>Polaroids.tsx\<close>

record Photo_item =
  p_position :: vec3
  p_rotation :: vec3
  p_randomOffset :: real

text \<open>The body of the loop of Polaroids at index \<open>i\<close>; the url is left out.\<close>

definition Polaroids_radius :: "nat \<Rightarrow> real" where
  "Polaroids_radius i =
     (let count = 12; treeHeight = 10; maxRadius = 4.5;
          y = (real i / count) * treeHeight - (treeHeight / 3)
      in ((treeHeight / 3 + y + 4) / treeHeight) * maxRadius * 1.1)"

definition Polaroids_body :: "rng \<Rightarrow> nat \<Rightarrow> nat \<times> Photo_item list \<Rightarrow> nat \<times> Photo_item list" where
  "Polaroids_body rnd i st =
     (let c = fst st; items = snd st;
          count = 12; treeHeight = 10; maxRadius = 4.5;
          y = (real i / count) * treeHeight - (treeHeight / 3);
          r = ((treeHeight / 3 + y + 4) / treeHeight) * maxRadius * 1.1;
          angle = real i * 1.5;
          x = r * cos angle;
          z = r * sin angle
      in (c + 1,
          items @ [\<lparr>p_position = Vec3 x y z, p_rotation = Vec3 0 (- angle + pi / 2) 0,
                    p_randomOffset = rnd c * 100\<rparr>]))"

function Polaroids_for :: "rng \<Rightarrow> nat \<Rightarrow> nat \<Rightarrow> nat \<times> Photo_item list \<Rightarrow> nat \<times> Photo_item list" where
  "Polaroids_for rnd count i st =
     (if i < count then Polaroids_for rnd count (Suc i) (Polaroids_body rnd i st) else st)"
  by pat_completeness auto
termination
  by (relation "measure (\<lambda>(rnd, count, i, st). count - i)") auto

declare Polaroids_for.simps [simp del]

definition Polaroids_useMemo :: "rng \<Rightarrow> nat \<Rightarrow> nat \<times> Photo_item list" where
  "Polaroids_useMemo rnd c = Polaroids_for rnd 12 0 (c, [])"

text \<open>The formed position the loop gives panel \<open>j\<close>.\<close>

definition Polaroids_formed :: "nat \<Rightarrow> vec3" where
  "Polaroids_formed j =
     Vec3 (Polaroids_radius j * cos (real j * 1.5)) (real j / 12 * 10 - 10 / 3)
          (Polaroids_radius j * sin (real j * 1.5))"

text \<open>The \<^verbatim>\<open>useMemo\<close> of Photo: the chaos position of one photo.\<close>

definition Photo_chaosPos :: "rng \<Rightarrow> nat \<Rightarrow> vec3" where
  "Photo_chaosPos rnd c =
     (let r = 20 + rnd c * 10;
          theta = rnd (c + 1) * pi * 2;
          y = (rnd (c + 2) - 0.5) * 20
      in Vec3 (r * cos theta) y (r * sin theta))"

text \<open>
  The frame callback of Photo, as the position it gives the group: \<^verbatim>\<open>currPos\<close>
  is a new vector, written by \<^verbatim>\<open>lerpVectors\<close> and then moved in \<open>y\<close>.
\<close>

definition Photo_frame_position :: "vec3 \<Rightarrow> vec3 \<Rightarrow> real \<Rightarrow> real \<Rightarrow> real \<Rightarrow> vec3" where
  "Photo_frame_position position chaos progress offset t =
     (let formedPos = position;
          currPos = lerpVectors formedPos chaos progress
      in Vec3 (vx currPos) (vy currPos + sin (t + offset) * 0.2) (vz currPos))"


text \<open>The float the frame callback of Photo adds to \<^verbatim>\<open>currPos\<close>.\<close>

definition Photo_float :: "real \<Rightarrow> real \<Rightarrow> vec3" where
  "Photo_float t offset = Vec3 0 (sin (t + offset) * 0.2) 0"

section \<open>The sampling rules of the specification\<close>

text \<open>
  The cone and shell rules in the specification's words, over the uniform draws
  \<open>u\<^sub>1\<close>, \<open>u\<^sub>2\<close>, \<open>u\<^sub>3\<close> they consume, to compare with what the components
  compute.
\<close>

definition spec_radiusAtY :: "real \<Rightarrow> real \<Rightarrow> real \<Rightarrow> real" where
  "spec_radiusAtY treeHeight maxRadius y = (treeHeight - y) / treeHeight * maxRadius"

definition spec_cone :: "real \<Rightarrow> real \<Rightarrow> real \<Rightarrow> real \<Rightarrow> real \<Rightarrow> vec3" where
  "spec_cone treeHeight maxRadius u1 u2 u3 =
     (let y = u1 * treeHeight;
          angle = u2 * (2 * pi);
          r = sqrt u3 * spec_radiusAtY treeHeight maxRadius y
      in Vec3 (r * cos angle) (y - treeHeight / 3) (r * sin angle))"

definition spec_shell :: "real \<Rightarrow> real \<Rightarrow> real \<Rightarrow> real \<Rightarrow> real \<Rightarrow> vec3" where
  "spec_shell Rmin Rrange u1 u2 u3 =
     (let chaosRadius = Rmin + u1 * Rrange;
          theta = u2 * (2 * pi);
          phi = arccos (2 * u3 - 1)
      in Vec3 (chaosRadius * sin phi * cos theta)
              (chaosRadius * sin phi * sin theta)
              (chaosRadius * cos phi))"


section \<open>Gesture samples\<close>

text \<open>
  The sample of an open hand at the centre; a hand of 21 landmarks, the wrist at
  \<open>(0, 0)\<close> and every other landmark at \<open>(1, 0)\<close>, and the sample
  \<^verbatim>\<open>predict\<close> makes of it; and the state of App after that sample, a frame, and
  a video frame without a hand.
\<close>

definition open_sample :: GestureUpdate where
  "open_sample = \<lparr>u_isOpen = True, u_x = 0, u_y = 0, u_detected = True\<rparr>"

definition open_hand :: "Landmark list" where
  "open_hand = \<lparr>lm_x = 0, lm_y = 0\<rparr> # replicate 20 \<lparr>lm_x = 1, lm_y = 0\<rparr>"

definition seen_open :: GestureUpdate where
  "seen_open = \<lparr>u_isOpen = True, u_x = - 1, u_y = 1, u_detected = True\<rparr>"

definition hand_lost :: App_state where
  "hand_lost = handleGestureUpdate no_hand (loop (handleGestureUpdate seen_open App_init))"

section \<open>A scene of one ornament\<close>

text \<open>
  A sequence of Math.random values (\<open>3/4\<close> at call 11, \<open>1/2\<close> at call 13, else 0)
  and the state Ornaments mounts on it for one ornament and a palette of one colour:
  the ornament at the foot of the cone, its chaos position at the pole of the shell, its
  axis the \<open>y\<close> axis, its speed \<open>1/2\<close>.
\<close>

definition spin_draws :: rng where
  "spin_draws n = (if n = 11 then 3 / 4 else if n = 13 then 1 / 2 else 0)"

definition one_ornament :: Ornaments_state where
  "one_ornament =
     \<lparr>heap = [Vec3 0 0 0, Vec3 1 1 1, Vec3 0 1 0, Vec3 (22 / 5) (- 4) 0, Vec3 0 0 (- 10)],
      data = [\<lparr>formPos = 3, chaosPos = 4, scale = 3 / 10, rotSpeed = 1 / 2, rotAxis = 2,
               color = Style ''#FFD700'', randomOffset = 0\<rparr>],
      tempObj = \<lparr>o_position = 0, o_quaternion = Quat 0 0 0 1, o_scale = 1\<rparr>,
      meshRef = Some [identity], instanceColor = Some [Style ''#FFD700'']\<rparr>"

text \<open>
  A sequence of Math.random values that is 0 for the first 2604 calls, as many as the
  first render of 200 ornaments makes, and \<open>1/2\<close> from then on.
\<close>

definition fresh_draws :: rng where
  "fresh_draws n = (if n < 2604 then 0 else 1 / 2)"

text \<open>A sequence of Math.random values whose first is \<open>9/10\<close>, the others 0.\<close>

definition far_draws :: rng where
  "far_draws n = (if n = 0 then 9 / 10 else 0)"

section \<open>The progress filter\<close>

lemma target_cases: "target g = 0 \<or> target g = 1"
  by (simp add: target_def)

lemma loop_gestureData [simp]: "gestureData (loop s) = gestureData s"
  by (simp add: loop_def Let_def)

lemma loop_progress:
  "progressRef (loop s) = progressRef s + (target (gestureData s) - progressRef s) * 0.05"
  by (simp add: loop_def Let_def)

lemma loop_error:
  "progressRef (loop s) - target (gestureData s)
     = (progressRef s - target (gestureData s)) * (1 - 0.05)"
  by (simp add: loop_progress field_simps)

lemma loop_abs_error:
  "\<bar>progressRef (loop s) - target (gestureData s)\<bar>
     = \<bar>progressRef s - target (gestureData s)\<bar> * (1 - 0.05)"
proof -
  have "\<bar>(progressRef s - target (gestureData s)) * (1 - 0.05)\<bar>
          = \<bar>progressRef s - target (gestureData s)\<bar> * \<bar>1 - 0.05 :: real\<bar>"
    by (rule abs_mult)
  also have "\<bar>1 - 0.05 :: real\<bar> = 1 - 0.05"
    by simp
  finally show ?thesis
    by (simp only: loop_error)
qed

lemma handle_progress [simp]: "progressRef (handleGestureUpdate d s) = progressRef s"
  by (simp add: handleGestureUpdate_def)

lemma handle_target:
  "target (gestureData (handleGestureUpdate d s)) = (if u_isOpen d then 1 else 0)"
  by (simp add: handleGestureUpdate_def target_def)

lemma run_same_target:
  "list_all (reports (isOpen (gestureData s))) evs \<Longrightarrow>
   isOpen (gestureData (App_run evs s)) = isOpen (gestureData s)"
proof (induction evs arbitrary: s)
  case Nil
  then show ?case by simp
next
  case (Cons e es)
  show ?case
  proof (cases e)
    case Frame
    with Cons show ?thesis by simp
  next
    case (Update d)
    with Cons.prems have same: "u_isOpen d = isOpen (gestureData s)" by simp
    then have "isOpen (gestureData (handleGestureUpdate d s)) = isOpen (gestureData s)"
      by (simp add: handleGestureUpdate_def)
    with Cons Update show ?thesis by simp
  qed
qed

lemma run_error:
  "list_all (reports (isOpen (gestureData s))) evs \<Longrightarrow>
   \<bar>progressRef (App_run evs s) - target (gestureData s)\<bar>
     = \<bar>progressRef s - target (gestureData s)\<bar> * (1 - 0.05) ^ frames evs"
proof (induction evs arbitrary: s)
  case Nil
  then show ?case by simp
next
  case (Cons e es)
  show ?case
  proof (cases e)
    case Frame
    have "\<bar>progressRef (App_run es (loop s)) - target (gestureData (loop s))\<bar>
            = \<bar>progressRef (loop s) - target (gestureData (loop s))\<bar> * (1 - 0.05) ^ frames es"
      using Cons.prems Frame by (intro Cons.IH) simp
    then show ?thesis
      using Frame by (simp add: loop_abs_error)
  next
    case (Update d)
    with Cons.prems have same: "u_isOpen d = isOpen (gestureData s)" by simp
    have open': "isOpen (gestureData (handleGestureUpdate d s)) = isOpen (gestureData s)"
      using same by (simp add: handleGestureUpdate_def)
    then have tgt: "target (gestureData (handleGestureUpdate d s)) = target (gestureData s)"
      by (simp add: target_def)
    have "\<bar>progressRef (App_run es (handleGestureUpdate d s))
              - target (gestureData (handleGestureUpdate d s))\<bar>
            = \<bar>progressRef (handleGestureUpdate d s)
              - target (gestureData (handleGestureUpdate d s))\<bar> * (1 - 0.05) ^ frames es"
      using Cons.prems Update open' by (intro Cons.IH) simp
    then show ?thesis
      using Update tgt by simp
  qed
qed

lemma loop_bounded:
  "0 \<le> progressRef s \<Longrightarrow> progressRef s \<le> 1 \<Longrightarrow>
   0 \<le> progressRef (loop s) \<and> progressRef (loop s) \<le> 1"
  using target_cases [of "gestureData s"] by (auto simp: loop_progress field_simps)

lemma loop_animProgress [simp]: "animProgress (loop s) = progressRef (loop s)"
  by (simp add: loop_def Let_def)

lemma handle_animProgress [simp]: "animProgress (handleGestureUpdate d s) = animProgress s"
  by (simp add: handleGestureUpdate_def)

lemma step_in_unit: "in_unit s \<Longrightarrow> in_unit (App_step s e)"
proof (cases e)
  case Frame
  assume "in_unit s"
  then have "0 \<le> progressRef (loop s) \<and> progressRef (loop s) \<le> 1"
    by (intro loop_bounded) (simp_all add: in_unit_def)
  with Frame show ?thesis
    by (simp add: in_unit_def)
next
  case (Update d)
  assume "in_unit s"
  with Update show ?thesis
    by (simp add: in_unit_def)
qed

lemma run_in_unit: "in_unit s \<Longrightarrow> in_unit (App_run evs s)"
  by (induction evs arbitrary: s) (simp_all add: step_in_unit)

lemma decay_270: "(1 - 0.05 :: real) ^ 270 < 1 / 10 ^ 6"
  by (simp add: power_divide)

lemma decay_from_270:
  assumes "270 \<le> n"
  shows "(1 - 0.05 :: real) ^ n < 1 / 10 ^ 6"
proof -
  have "(1 - 0.05 :: real) ^ n \<le> (1 - 0.05) ^ 270"
    using assms by (intro power_decreasing) simp_all
  with decay_270 show ?thesis by linarith
qed

text \<open>
  C1, as amended. Over any run in which every sample reports the same open state, with
  \<open>t\<close> the target that state gives: the distance of the progress to \<open>t\<close> after the
  run is the distance before it times \<open>(1 - 0.05) ^ N\<close>, \<open>N\<close> the number of frames
  in the run; one more frame makes the distance strictly smaller whenever the progress
  had not already been equal to \<open>t\<close> at the start; and from a progress in \<open>[0, 1]\<close>
  the distance is below \<open>10\<^sup>-\<^sup>6\<close> after 270 frames or more.
\<close>

theorem C1_convergence:
  assumes "list_all (reports (isOpen (gestureData s))) evs"
  shows "\<bar>progressRef (App_run evs s) - target (gestureData s)\<bar>
           = \<bar>progressRef s - target (gestureData s)\<bar> * (1 - 0.05) ^ frames evs
         \<and> (progressRef s \<noteq> target (gestureData s) \<longrightarrow>
              \<bar>progressRef (App_run (evs @ [Frame]) s) - target (gestureData s)\<bar>
                < \<bar>progressRef (App_run evs s) - target (gestureData s)\<bar>)
         \<and> (0 \<le> progressRef s \<and> progressRef s \<le> 1 \<and> 270 \<le> frames evs \<longrightarrow>
              \<bar>progressRef (App_run evs s) - target (gestureData s)\<bar> < 1 / 10 ^ 6)"
proof -
  let ?t = "target (gestureData s)"
  let ?e0 = "\<bar>progressRef s - ?t\<bar>"
  have eq: "\<bar>progressRef (App_run evs s) - ?t\<bar> = ?e0 * (1 - 0.05) ^ frames evs"
    by (rule run_error [OF assms])
  have frames_snoc: "frames (evs @ [Frame]) = Suc (frames evs)"
    by (induction evs rule: frames.induct) simp_all
  have all_snoc: "list_all (reports (isOpen (gestureData s))) (evs @ [Frame])"
    using assms by simp
  have eq': "\<bar>progressRef (App_run (evs @ [Frame]) s) - ?t\<bar>
               = ?e0 * (1 - 0.05) ^ Suc (frames evs)"
    using run_error [OF all_snoc] frames_snoc by simp
  have strict: "\<bar>progressRef (App_run (evs @ [Frame]) s) - ?t\<bar>
                  < \<bar>progressRef (App_run evs s) - ?t\<bar>" if ne: "progressRef s \<noteq> ?t"
  proof -
    have pos: "0 < ?e0 * (1 - 0.05) ^ frames evs"
      using ne by simp
    have "?e0 * (1 - 0.05) ^ Suc (frames evs) = (?e0 * (1 - 0.05) ^ frames evs) * (1 - 0.05)"
      by simp
    also have "\<dots> < ?e0 * (1 - 0.05) ^ frames evs"
      using pos by simp
    finally show ?thesis
      using eq eq' by simp
  qed
  have near: "\<bar>progressRef (App_run evs s) - ?t\<bar> < 1 / 10 ^ 6"
    if r: "0 \<le> progressRef s" "progressRef s \<le> 1" and n: "270 \<le> frames evs"
  proof -
    have le1: "?e0 \<le> 1"
      using r target_cases [of "gestureData s"] by auto
    have "?e0 * (1 - 0.05) ^ frames evs \<le> 1 * (1 - 0.05) ^ frames evs"
      using le1 by (intro mult_right_mono) simp_all
    also have "\<dots> < 1 / 10 ^ 6"
      using decay_from_270 [OF n] by simp
    finally show ?thesis
      using eq by simp
  qed
  from eq strict near show ?thesis by blast
qed

text \<open>
  The witness: from the initial state, 270 frames while the hand is reported open
  (one sample, then the frames).
\<close>

theorem C1_convergence_witness:
  "\<bar>progressRef (App_run (replicate 270 Frame) (handleGestureUpdate open_sample App_init)) - 1\<bar>
      < 1 / 10 ^ 6"
proof -
  let ?s = "handleGestureUpdate open_sample App_init"
  have fr: "frames (replicate n Frame) = n" for n
    by (induction n) simp_all
  have all: "list_all (reports (isOpen (gestureData ?s))) (replicate 270 Frame)"
    by (simp add: list_all_iff)
  have t: "target (gestureData ?s) = 1"
    by (simp add: handle_target open_sample_def)
  have p: "progressRef ?s = 0"
    by (simp add: App_init_def)
  show ?thesis
    using C1_convergence [OF all] t p fr [of 270] by simp
qed

text \<open>
  The claim as stated fails in the initial state of the component: the progress is 0 and
  the target is 0, a frame leaves the distance at 0, so the distance does not strictly
  decrease.
\<close>

theorem C1_not_strict_at_target:
  "list_all (reports (isOpen (gestureData App_init))) [Frame]
   \<and> target (gestureData App_init) = 0
   \<and> \<not> \<bar>progressRef (App_run [Frame] App_init) - target (gestureData App_init)\<bar>
         < \<bar>progressRef App_init - target (gestureData App_init)\<bar>"
  by (simp add: App_init_def target_def loop_def Let_def)

text \<open>
  C2. Whatever frames and gesture samples follow the initial state (progress 0), the
  progress stays in \<open>[0, 1]\<close>, and so does the \<^verbatim>\<open>animProgress\<close> handed to the
  scene.
\<close>

theorem C2_progress_bounded:
  "0 \<le> progressRef (App_run evs App_init) \<and> progressRef (App_run evs App_init) \<le> 1
   \<and> 0 \<le> animProgress (App_run evs App_init) \<and> animProgress (App_run evs App_init) \<le> 1"
proof -
  have "in_unit App_init"
    by (simp add: in_unit_def App_init_def)
  then have "in_unit (App_run evs App_init)"
    by (rule run_in_unit)
  then show ?thesis
    by (simp add: in_unit_def)
qed

section \<open>Samples without a hand\<close>

lemma detect_undetected:
  "detect r = Inr d \<Longrightarrow> \<not> u_detected d \<Longrightarrow> d = no_hand"
  by (auto simp: detect_def Let_def split: option.splits list.splits if_splits)

lemma predict_undetected:
  "predict f = Inr (Some d) \<Longrightarrow> \<not> u_detected d \<Longrightarrow> d = no_hand"
  by (auto simp: predict_def split: option.splits sum.splits dest: detect_undetected)

lemma reachable_undetected:
  "reachable s \<Longrightarrow> \<not> detected (gestureData s) \<Longrightarrow>
   \<not> isOpen (gestureData s) \<and> handPosition (gestureData s) = (0, 0)"
proof (induction rule: reachable.induct)
  case start
  show ?case by (simp add: App_init_def)
next
  case (frame s)
  then show ?case by simp
next
  case (sample s new_frame d)
  from sample.prems have "\<not> u_detected d"
    by (simp add: handleGestureUpdate_def)
  with sample.hyps have "d = no_hand"
    by (blast dest: predict_undetected)
  then show ?case
    by (simp add: handleGestureUpdate_def no_hand_def)
qed

text \<open>
  C8. A video frame on which the detector returns no landmarks (the field missing, or no
  hand in it) is not an error: \<^verbatim>\<open>predict\<close> sends the sample with
  \<^verbatim>\<open>detected = false\<close>. In every state the component reaches, while
  \<^verbatim>\<open>detected\<close> is false the morph target is 0, the hand position stored is
  \<open>(0, 0)\<close> and the aim \<^verbatim>\<open>handX\<close>, \<^verbatim>\<open>handY\<close> given to the camera rig is
  \<open>(0, 0)\<close>; the next frame then moves the progress to 0.95 of its value and the
  camera to 0.95 of its offset from the base position \<open>(0, 2, 18)\<close>.
\<close>

theorem C8_undetected_is_formed:
  "predict (Some None) = Inr (Some no_hand) \<and> predict (Some (Some [])) = Inr (Some no_hand)
   \<and> \<not> u_detected no_hand
   \<and> (reachable s \<and> \<not> detected (gestureData s) \<longrightarrow>
        target (gestureData s) = 0
        \<and> handPosition (gestureData s) = (0, 0)
        \<and> handX (gestureData s) = 0 \<and> handY (gestureData s) = 0
        \<and> progressRef (loop s) = 0.95 * progressRef s
        \<and> CameraRig_frame (handX (gestureData s)) (handY (gestureData s)) (Vec3 x y z)
            = Vec3 (0.95 * x) (2 + 0.95 * (y - 2)) 18)"
proof -
  have p1: "predict (Some None) = Inr (Some no_hand)"
    by (simp add: predict_def detect_def)
  have p2: "predict (Some (Some [])) = Inr (Some no_hand)"
    by (simp add: predict_def detect_def)
  have p3: "\<not> u_detected no_hand"
    by (simp add: no_hand_def)
  have main: "target (gestureData s) = 0
        \<and> handPosition (gestureData s) = (0, 0)
        \<and> handX (gestureData s) = 0 \<and> handY (gestureData s) = 0
        \<and> progressRef (loop s) = 0.95 * progressRef s
        \<and> CameraRig_frame (handX (gestureData s)) (handY (gestureData s)) (Vec3 x y z)
            = Vec3 (0.95 * x) (2 + 0.95 * (y - 2)) 18"
    if r: "reachable s" and nd: "\<not> detected (gestureData s)"
  proof -
    from reachable_undetected [OF r nd]
    have closed: "\<not> isOpen (gestureData s)" and pos: "handPosition (gestureData s) = (0, 0)"
      by simp_all
    have t: "target (gestureData s) = 0"
      using closed by (simp add: target_def)
    have hx: "handX (gestureData s) = 0" and hy: "handY (gestureData s) = 0"
      using nd by (simp_all add: handX_def handY_def)
    have pr: "progressRef (loop s) = 0.95 * progressRef s"
      by (simp add: loop_progress t field_simps)
    have cam: "CameraRig_frame 0 0 (Vec3 x y z) = Vec3 (0.95 * x) (2 + 0.95 * (y - 2)) 18"
      by (simp add: CameraRig_frame_def MathUtils_lerp_def Let_def field_simps)
    from t pos hx hy pr cam show ?thesis by simp
  qed
  from p1 p2 p3 main show ?thesis by blast
qed

lemma predict_open_hand: "predict (Some (Some [open_hand])) = Inr (Some seen_open)"
  by (simp add: predict_def detect_def open_hand_def seen_open_def tip_dist_def Let_def)

lemma reachable_hand_lost: "reachable hand_lost"
proof -
  have "reachable (handleGestureUpdate seen_open App_init)"
    using reachable.start predict_open_hand by (rule reachable.sample)
  then have "reachable (loop (handleGestureUpdate seen_open App_init))"
    by (rule reachable.frame)
  moreover have "predict (Some None) = Inr (Some no_hand)"
    by (simp add: predict_def detect_def)
  ultimately show ?thesis
    unfolding hand_lost_def by (rule reachable.sample)
qed

text \<open>
  The witness: an open hand is seen (wrist at \<open>(0, 0)\<close>, every other landmark at
  \<open>(1, 0)\<close>), a frame runs, then a video frame without a hand arrives.
\<close>

theorem C8_undetected_is_formed_witness:
  "progressRef hand_lost = 0.05
   \<and> target (gestureData hand_lost) = 0
   \<and> handPosition (gestureData hand_lost) = (0, 0)
   \<and> handX (gestureData hand_lost) = 0 \<and> handY (gestureData hand_lost) = 0
   \<and> progressRef (loop hand_lost) = 0.95 * 0.05
   \<and> CameraRig_frame (handX (gestureData hand_lost)) (handY (gestureData hand_lost))
        (Vec3 (- 10) 7 18) = Vec3 (- 9.5) 6.75 18"
proof -
  have nd: "\<not> detected (gestureData hand_lost)"
    by (simp add: hand_lost_def handleGestureUpdate_def no_hand_def)
  have p: "progressRef hand_lost = 0.05"
    by (simp add: hand_lost_def loop_progress handle_target seen_open_def App_init_def)
  have main: "target (gestureData hand_lost) = 0
        \<and> handPosition (gestureData hand_lost) = (0, 0)
        \<and> handX (gestureData hand_lost) = 0 \<and> handY (gestureData hand_lost) = 0
        \<and> progressRef (loop hand_lost) = 0.95 * progressRef hand_lost
        \<and> CameraRig_frame (handX (gestureData hand_lost)) (handY (gestureData hand_lost))
              (Vec3 (- 10) 7 18) = Vec3 (0.95 * (- 10)) (2 + 0.95 * (7 - 2)) 18"
    using C8_undetected_is_formed [of hand_lost "- 10" 7 18] reachable_hand_lost nd
    by blast
  then have cam: "CameraRig_frame (handX (gestureData hand_lost)) (handY (gestureData hand_lost))
              (Vec3 (- 10) 7 18) = Vec3 (0.95 * (- 10)) (2 + 0.95 * (7 - 2)) 18"
    by blast
  have cam': "CameraRig_frame (handX (gestureData hand_lost)) (handY (gestureData hand_lost))
              (Vec3 (- 10) 7 18) = Vec3 (- 9.5) 6.75 18"
    by (simp only: cam) simp
  from main have pr: "progressRef (loop hand_lost) = 0.95 * 0.05"
    by (simp only: p)
  from main p pr cam' show ?thesis
    by blast
qed

section \<open>The foliage buffers\<close>

lemma foliage_body_fst: "fst (foliage_body rnd i st) = fst st + 7"
  by (simp add: foliage_body_def Let_def)

lemma foliage_body_lengths:
  "length (positions (snd (foliage_body rnd i st))) = length (positions (snd st))"
  "length (chaosPositions (snd (foliage_body rnd i st))) = length (chaosPositions (snd st))"
  "length (randoms (snd (foliage_body rnd i st))) = length (randoms (snd st))"
  by (simp_all add: foliage_body_def Let_def)

lemma triple_at_update_same:
  "i * 3 + 2 < length xs \<Longrightarrow>
   triple_at (xs[i * 3 := a, i * 3 + 1 := b, i * 3 + 2 := c]) i = Vec3 a b c"
  by (simp add: triple_at_def)

lemma foliage_body_positions:
  "positions (snd (foliage_body rnd i st))
     = (positions (snd st))
         [i * 3 := vx (spec_cone 14 5 (rnd (fst st)) (rnd (fst st + 1)) (rnd (fst st + 2))),
          i * 3 + 1 := vy (spec_cone 14 5 (rnd (fst st)) (rnd (fst st + 1)) (rnd (fst st + 2))),
          i * 3 + 2 := vz (spec_cone 14 5 (rnd (fst st)) (rnd (fst st + 1)) (rnd (fst st + 2)))]"
  by (simp add: foliage_body_def Let_def spec_cone_def spec_radiusAtY_def field_simps)

lemma foliage_body_chaosPositions:
  "chaosPositions (snd (foliage_body rnd i st))
     = (chaosPositions (snd st))
         [i * 3 := vx (spec_shell 15 10 (rnd (fst st + 3)) (rnd (fst st + 4)) (rnd (fst st + 5))),
          i * 3 + 1 := vy (spec_shell 15 10 (rnd (fst st + 3)) (rnd (fst st + 4)) (rnd (fst st + 5))),
          i * 3 + 2 := vz (spec_shell 15 10 (rnd (fst st + 3)) (rnd (fst st + 4)) (rnd (fst st + 5)))]"
  by (simp add: foliage_body_def Let_def spec_shell_def field_simps)

lemma triple_at_update_other:
  "j \<noteq> i \<Longrightarrow>
   triple_at (xs[i * 3 := a, i * 3 + 1 := b, i * 3 + 2 := c]) j = triple_at xs j"
  by (auto simp: triple_at_def nth_list_update)

lemma foliage_body_positions_same:
  assumes "i * 3 + 2 < length (positions (snd st))"
  shows "triple_at (positions (snd (foliage_body rnd i st))) i
           = spec_cone 14 5 (rnd (fst st)) (rnd (fst st + 1)) (rnd (fst st + 2))"
  using assms by (simp only: foliage_body_positions triple_at_update_same vec3.collapse)

lemma foliage_body_chaos_same:
  assumes "i * 3 + 2 < length (chaosPositions (snd st))"
  shows "triple_at (chaosPositions (snd (foliage_body rnd i st))) i
           = spec_shell 15 10 (rnd (fst st + 3)) (rnd (fst st + 4)) (rnd (fst st + 5))"
  using assms by (simp only: foliage_body_chaosPositions triple_at_update_same vec3.collapse)

lemma foliage_body_other:
  assumes "j \<noteq> i"
  shows "triple_at (positions (snd (foliage_body rnd i st))) j = triple_at (positions (snd st)) j"
    and "triple_at (chaosPositions (snd (foliage_body rnd i st))) j
           = triple_at (chaosPositions (snd st)) j"
  unfolding foliage_body_positions foliage_body_chaosPositions
  by (rule triple_at_update_other [OF assms])+

lemma foliage_for_positions:
  "length (positions (snd st)) = count * 3 \<Longrightarrow> j < count \<Longrightarrow>
   triple_at (positions (snd (foliage_for rnd count i st))) j
     = (if i \<le> j
        then spec_cone 14 5 (rnd (fst st + 7 * (j - i))) (rnd (fst st + 7 * (j - i) + 1))
               (rnd (fst st + 7 * (j - i) + 2))
        else triple_at (positions (snd st)) j)"
proof (induction rnd count i st rule: foliage_for.induct)
  case (1 rnd count i st)
  show ?case
  proof (cases "i < count")
    case False
    with "1.prems" show ?thesis
      by (subst foliage_for.simps) simp
  next
    case True
    let ?st = "foliage_body rnd i st"
    have len: "length (positions (snd ?st)) = count * 3"
      using "1.prems" by (simp add: foliage_body_lengths)
    have IH: "triple_at (positions (snd (foliage_for rnd count (Suc i) ?st))) j
      = (if Suc i \<le> j
         then spec_cone 14 5 (rnd (fst ?st + 7 * (j - Suc i))) (rnd (fst ?st + 7 * (j - Suc i) + 1))
               (rnd (fst ?st + 7 * (j - Suc i) + 2))
         else triple_at (positions (snd ?st)) j)"
      using "1.IH" [OF True len "1.prems"(2)] .
    have unfold: "foliage_for rnd count i st = foliage_for rnd count (Suc i) ?st"
      using True by (subst foliage_for.simps) simp
    consider "j < i" | "j = i" | "i < j" by linarith
    then show ?thesis
    proof cases
      case 1
      then show ?thesis
        using IH unfold by (simp add: foliage_body_other)
    next
      case 2
      have "i * 3 + 2 < length (positions (snd st))"
        using True "1.prems" by simp
      then show ?thesis
        using IH unfold 2 by (simp add: foliage_body_positions_same)
    next
      case 3
      then have "fst ?st + 7 * (j - Suc i) = fst st + 7 * (j - i)"
        by (simp add: foliage_body_fst)
      then show ?thesis
        using IH unfold 3 by simp
    qed
  qed
qed


lemma foliage_for_chaosPositions:
  "length (chaosPositions (snd st)) = count * 3 \<Longrightarrow> j < count \<Longrightarrow>
   triple_at (chaosPositions (snd (foliage_for rnd count i st))) j
     = (if i \<le> j
        then spec_shell 15 10 (rnd (fst st + 7 * (j - i) + 3)) (rnd (fst st + 7 * (j - i) + 4))
               (rnd (fst st + 7 * (j - i) + 5))
        else triple_at (chaosPositions (snd st)) j)"
proof (induction rnd count i st rule: foliage_for.induct)
  case (1 rnd count i st)
  show ?case
  proof (cases "i < count")
    case False
    with "1.prems" show ?thesis
      by (subst foliage_for.simps) simp
  next
    case True
    let ?st = "foliage_body rnd i st"
    have len: "length (chaosPositions (snd ?st)) = count * 3"
      using "1.prems" by (simp add: foliage_body_lengths)
    have IH: "triple_at (chaosPositions (snd (foliage_for rnd count (Suc i) ?st))) j
      = (if Suc i \<le> j
         then spec_shell 15 10 (rnd (fst ?st + 7 * (j - Suc i) + 3))
               (rnd (fst ?st + 7 * (j - Suc i) + 4)) (rnd (fst ?st + 7 * (j - Suc i) + 5))
         else triple_at (chaosPositions (snd ?st)) j)"
      using "1.IH" [OF True len "1.prems"(2)] .
    have unfold: "foliage_for rnd count i st = foliage_for rnd count (Suc i) ?st"
      using True by (subst foliage_for.simps) simp
    consider "j < i" | "j = i" | "i < j" by linarith
    then show ?thesis
    proof cases
      case 1
      then show ?thesis
        using IH unfold by (simp add: foliage_body_other)
    next
      case 2
      have "i * 3 + 2 < length (chaosPositions (snd st))"
        using True "1.prems" by simp
      then show ?thesis
        using IH unfold 2 by (simp add: foliage_body_chaos_same)
    next
      case 3
      then have "fst ?st + 7 * (j - Suc i) = fst st + 7 * (j - i)"
        by (simp add: foliage_body_fst)
      then show ?thesis
        using IH unfold 3 by simp
    qed
  qed
qed

lemma Foliage_formed:
  "i < Foliage_count \<Longrightarrow>
   triple_at (positions (snd (Foliage_useMemo rnd c))) i
     = spec_cone 14 5 (rnd (c + 7 * i)) (rnd (c + 7 * i + 1)) (rnd (c + 7 * i + 2))"
  unfolding Foliage_useMemo_def
  by (subst foliage_for_positions [where count = Foliage_count]) simp_all

lemma Foliage_chaos:
  "i < Foliage_count \<Longrightarrow>
   triple_at (chaosPositions (snd (Foliage_useMemo rnd c))) i
     = spec_shell 15 10 (rnd (c + 7 * i + 3)) (rnd (c + 7 * i + 4)) (rnd (c + 7 * i + 5))"
  unfolding Foliage_useMemo_def
  by (subst foliage_for_chaosPositions [where count = Foliage_count]) simp_all

lemma cone_ranges:
  assumes "0 \<le> u1" "u1 < 1" "0 \<le> u2" "u2 < 1" "0 \<le> u3" "u3 < 1" "0 < H" "0 < R"
  shows "0 \<le> u1 * H \<and> u1 * H < H"
    and "0 \<le> u2 * (2 * pi) \<and> u2 * (2 * pi) < 2 * pi"
    and "0 < spec_radiusAtY H R (u1 * H) \<and> spec_radiusAtY H R (u1 * H) \<le> R"
    and "0 \<le> sqrt u3 * spec_radiusAtY H R (u1 * H)
         \<and> sqrt u3 * spec_radiusAtY H R (u1 * H) \<le> spec_radiusAtY H R (u1 * H)"
    and "(sqrt u3 * spec_radiusAtY H R (u1 * H))\<^sup>2 = u3 * (spec_radiusAtY H R (u1 * H))\<^sup>2"
proof -
  show "0 \<le> u1 * H \<and> u1 * H < H"
    using assms by simp
  show "0 \<le> u2 * (2 * pi) \<and> u2 * (2 * pi) < 2 * pi"
    using assms by simp
  have eq: "spec_radiusAtY H R (u1 * H) = (1 - u1) * R"
    using assms by (simp add: spec_radiusAtY_def field_simps)
  show rad: "0 < spec_radiusAtY H R (u1 * H) \<and> spec_radiusAtY H R (u1 * H) \<le> R"
    unfolding eq using assms by (simp add: mult_le_cancel_right1)
  have s: "0 \<le> sqrt u3" "sqrt u3 \<le> 1"
    using assms by simp_all
  show "0 \<le> sqrt u3 * spec_radiusAtY H R (u1 * H)
         \<and> sqrt u3 * spec_radiusAtY H R (u1 * H) \<le> spec_radiusAtY H R (u1 * H)"
    using s rad by (simp add: mult_le_cancel_right1)
  show "(sqrt u3 * spec_radiusAtY H R (u1 * H))\<^sup>2 = u3 * (spec_radiusAtY H R (u1 * H))\<^sup>2"
    using assms by (simp add: power_mult_distrib)
qed


text \<open>
  C3. For every index \<open>i\<close> of the foliage, with \<open>u\<^sub>1\<close>, \<open>u\<^sub>2\<close>, \<open>u\<^sub>3\<close> the
  first three values Math.random returns in iteration \<open>i\<close> (each in \<open>[0, 1)\<close>): the
  height is \<open>y = u\<^sub>1 * treeHeight\<close>, in \<open>[0, treeHeight)\<close>; the radius bound is
  \<open>radiusAtY = ((treeHeight - y) / treeHeight) * maxRadius\<close>, in \<open>(0, maxRadius]\<close>,
  and the same formula gives 0 at \<open>y = treeHeight\<close>; the angle is \<open>u\<^sub>2 * 2\<pi>\<close>, in
  \<open>[0, 2\<pi>)\<close>; the radial distance is \<open>r = sqrt u\<^sub>3 * radiusAtY\<close>, so it is at most
  \<open>radiusAtY\<close> and its square is \<open>u\<^sub>3\<close> times the square of \<open>radiusAtY\<close>; and the
  position stored at \<open>i\<close> is \<open>(r cos angle, y - treeHeight / 3, r sin angle)\<close>.
\<close>

theorem C3_foliage_formed_position:
  assumes "unit_draws rnd" and "i < Foliage_count"
  shows "(let u1 = rnd (c + 7 * i); u2 = rnd (c + 7 * i + 1); u3 = rnd (c + 7 * i + 2);
              treeHeight = 14; maxRadius = 5;
              y = u1 * treeHeight;
              radiusAtY = ((treeHeight - y) / treeHeight) * maxRadius;
              angle = u2 * (2 * pi);
              r = sqrt u3 * radiusAtY
          in triple_at (positions (snd (Foliage_useMemo rnd c))) i
               = Vec3 (r * cos angle) (y - treeHeight / 3) (r * sin angle)
             \<and> 0 \<le> y \<and> y < treeHeight
             \<and> 0 < radiusAtY \<and> radiusAtY \<le> maxRadius
             \<and> ((treeHeight - treeHeight) / treeHeight) * maxRadius = 0
             \<and> 0 \<le> angle \<and> angle < 2 * pi
             \<and> 0 \<le> r \<and> r \<le> radiusAtY \<and> r\<^sup>2 = u3 * radiusAtY\<^sup>2)"
proof -
  let ?u1 = "rnd (c + 7 * i)" and ?u2 = "rnd (c + 7 * i + 1)" and ?u3 = "rnd (c + 7 * i + 2)"
  have u: "0 \<le> ?u1" "?u1 < 1" "0 \<le> ?u2" "?u2 < 1" "0 \<le> ?u3" "?u3 < 1"
    using assms(1) by (simp_all add: unit_draws_def)
  have rad: "((14 - ?u1 * 14) / 14) * 5 = spec_radiusAtY 14 5 (?u1 * 14)"
    by (simp add: spec_radiusAtY_def)
  have pos: "triple_at (positions (snd (Foliage_useMemo rnd c))) i
      = Vec3 (sqrt ?u3 * (((14 - ?u1 * 14) / 14) * 5) * cos (?u2 * (2 * pi)))
             (?u1 * 14 - 14 / 3)
             (sqrt ?u3 * (((14 - ?u1 * 14) / 14) * 5) * sin (?u2 * (2 * pi)))"
    unfolding Foliage_formed [OF assms(2)] rad by (simp add: spec_cone_def Let_def)
  note r = cone_ranges [OF u, of 14 5, folded rad]
  have apex: "((14 - 14) / 14) * 5 = (0::real)"
    by simp
  show ?thesis
    unfolding Let_def using pos r apex by simp
qed

text \<open>
  The witness: every value of Math.random is \<open>1/4\<close>. Vertex 0 is at height
  \<open>3.5 - 14/3\<close>, a quarter turn round, at radial distance \<open>15/8\<close>, half the bound
  \<open>15/4\<close> at that height.
\<close>

theorem C3_foliage_formed_position_witness:
  "triple_at (positions (snd (Foliage_useMemo (\<lambda>n. 1 / 4) 0))) 0 = Vec3 0 (7 / 2 - 14 / 3) (15 / 8)"
proof -
  have d: "unit_draws (\<lambda>n. 1 / 4)"
    by (simp add: unit_draws_def)
  have i: "0 < Foliage_count"
    by (simp add: Foliage_count_def)
  show ?thesis
    using C3_foliage_formed_position [OF d i, of 0]
    by (simp add: Let_def real_sqrt_divide)
qed

section \<open>The ornaments: generation and frames\<close>

lemma Ornaments_item_refs:
  "rotAxis (fst (Ornaments_item rnd pal st)) = length (snd st)"
  "formPos (fst (Ornaments_item rnd pal st)) = length (snd st) + 1"
  "chaosPos (fst (Ornaments_item rnd pal st)) = length (snd st) + 2"
  by (simp_all add: Ornaments_item_def Let_def)

lemma Ornaments_item_cursor: "fst (snd (Ornaments_item rnd pal st)) = fst st + 13"
  by (simp add: Ornaments_item_def Let_def)

lemma Ornaments_item_color:
  "color (fst (Ornaments_item rnd pal st))
     = THREE_Color (array_at pal \<lfloor>rnd (fst st + 11) * real (length pal)\<rfloor>)"
  by (simp add: Ornaments_item_def Let_def)

lemma Ornaments_item_store:
  "\<exists>axis form. snd (snd (Ornaments_item rnd pal st))
     = snd st @ [axis, form,
         spec_shell 10 15 (rnd (fst st + 3)) (rnd (fst st + 4)) (rnd (fst st + 5))]"
  by (simp add: Ornaments_item_def Let_def spec_shell_def field_simps)

lemma Ornaments_item_store_length:
  "length (snd (snd (Ornaments_item rnd pal st))) = length (snd st) + 3"
  using Ornaments_item_store [of rnd pal st] by auto

lemma Ornaments_item_store_prefix:
  "a < length (snd st) \<Longrightarrow> snd (snd (Ornaments_item rnd pal st)) ! a = snd st ! a"
  using Ornaments_item_store [of rnd pal st] by (auto simp: nth_append)

lemma Ornaments_item_chaos:
  "snd (snd (Ornaments_item rnd pal st)) ! (length (snd st) + 2)
     = spec_shell 10 15 (rnd (fst st + 3)) (rnd (fst st + 4)) (rnd (fst st + 5))"
  using Ornaments_item_store [of rnd pal st] by (auto simp: nth_append)

lemma Ornaments_map_length: "length (fst (Ornaments_map rnd pal n st)) = n"
  by (induction n arbitrary: st) (simp_all add: Let_def)

lemma Ornaments_map_cursor: "fst (snd (Ornaments_map rnd pal n st)) = fst st + 13 * n"
  by (induction n arbitrary: st) (simp_all add: Let_def Ornaments_item_cursor)

lemma Ornaments_map_store_length:
  "length (snd (snd (Ornaments_map rnd pal n st))) = length (snd st) + 3 * n"
  by (induction n arbitrary: st) (simp_all add: Let_def Ornaments_item_store_length)

lemma Ornaments_map_store_prefix:
  "a < length (snd st) \<Longrightarrow> snd (snd (Ornaments_map rnd pal n st)) ! a = snd st ! a"
proof (induction n arbitrary: st)
  case 0
  then show ?case by simp
next
  case (Suc n)
  let ?st1 = "snd (Ornaments_item rnd pal st)"
  have "a < length (snd ?st1)"
    using Suc.prems by (simp add: Ornaments_item_store_length)
  then have "snd (snd (Ornaments_map rnd pal n ?st1)) ! a = snd ?st1 ! a"
    by (rule Suc.IH)
  then show ?case
    using Suc.prems by (simp add: Let_def Ornaments_item_store_prefix)
qed

lemma Ornaments_map_nth:
  "k < n \<Longrightarrow>
   rotAxis (fst (Ornaments_map rnd pal n st) ! k) = length (snd st) + 3 * k
   \<and> formPos (fst (Ornaments_map rnd pal n st) ! k) = length (snd st) + 3 * k + 1
   \<and> chaosPos (fst (Ornaments_map rnd pal n st) ! k) = length (snd st) + 3 * k + 2
   \<and> color (fst (Ornaments_map rnd pal n st) ! k)
       = THREE_Color (array_at pal \<lfloor>rnd (fst st + 13 * k + 11) * real (length pal)\<rfloor>)
   \<and> snd (snd (Ornaments_map rnd pal n st)) ! (length (snd st) + 3 * k + 2)
       = spec_shell 10 15 (rnd (fst st + 13 * k + 3)) (rnd (fst st + 13 * k + 4))
           (rnd (fst st + 13 * k + 5))"
proof (induction n arbitrary: st k)
  case 0
  then show ?case by simp
next
  case (Suc n)
  let ?item = "Ornaments_item rnd pal st"
  let ?st1 = "snd ?item"
  show ?case
  proof (cases k)
    case 0
    have "length (snd st) + 2 < length (snd ?st1)"
      by (simp add: Ornaments_item_store_length)
    then have "snd (snd (Ornaments_map rnd pal n ?st1)) ! (length (snd st) + 2)
                 = snd ?st1 ! (length (snd st) + 2)"
      by (rule Ornaments_map_store_prefix)
    then show ?thesis
      using 0 Ornaments_item_chaos [of rnd pal st]
      by (simp add: Let_def Ornaments_item_refs Ornaments_item_color)
  next
    case (Suc k')
    then have "k' < n" using Suc.prems by simp
    note IH = Suc.IH [OF this, of ?st1]
    have a: "length (snd ?st1) + 3 * k' = length (snd st) + 3 * k"
      and c: "fst ?st1 + 13 * k' = fst st + 13 * k"
      using Suc by (simp_all add: Ornaments_item_store_length Ornaments_item_cursor)
    show ?thesis
      using IH Suc unfolding a c by (simp add: Let_def)
  qed
qed


lemma setColors_Some:
  assumes "xs \<noteq> []"
  shows "\<exists>cs. foldl (\<lambda>ic di. setColorAt n (snd di) (color (fst di)) ic) ic0 xs = Some cs"
proof (cases xs rule: rev_cases)
  case Nil
  with assms show ?thesis by simp
next
  case (snoc ys y)
  then show ?thesis by (simp add: setColorAt_def)
qed

lemma Ornaments_useLayoutEffect_Inr:
  assumes "Ornaments_useLayoutEffect s = Inr s'"
  shows "heap s' = heap s" "data s' = data s" "tempObj s' = tempObj s" "meshRef s' = meshRef s"
  using assms by (auto simp: Ornaments_useLayoutEffect_def split: option.splits)

lemma Ornaments_useLayoutEffect_runs:
  assumes "data s \<noteq> []"
  shows "\<exists>s'. Ornaments_useLayoutEffect s = Inr s'"
proof (cases "meshRef s")
  case None
  then show ?thesis by (simp add: Ornaments_useLayoutEffect_def)
next
  case (Some m)
  have "zip (data s) [0..<length (data s)] \<noteq> []"
    using assms by (cases "data s") (simp_all add: upt_conv_Cons)
  from setColors_Some [OF this, of "length m" "instanceColor s"] Some show ?thesis
    by (auto simp: Ornaments_useLayoutEffect_def)
qed

lemma Ornaments_build_Inr:
  assumes "Ornaments_build rnd pal count (c, h) = Inr s"
  shows "0 \<le> count"
    and "data s = fst (Ornaments_map rnd pal (nat count) (c + uuid_draws, h @ [Vec3 0 0 0, Vec3 1 1 1]))"
    and "heap s
          = snd (snd (Ornaments_map rnd pal (nat count) (c + uuid_draws, h @ [Vec3 0 0 0, Vec3 1 1 1])))"
    and "tempObj s = \<lparr>o_position = length h, o_quaternion = Quat 0 0 0 1, o_scale = length h + 1\<rparr>"
    and "meshRef s = Some (replicate (nat count) identity)"
proof -
  let ?r = "Ornaments_map rnd pal (nat count) (c + uuid_draws, h @ [Vec3 0 0 0, Vec3 1 1 1])"
  let ?s0 = "\<lparr>heap = snd (snd ?r), data = fst ?r,
      tempObj = \<lparr>o_position = length h, o_quaternion = Quat 0 0 0 1, o_scale = length h + 1\<rparr>,
      meshRef = Some (replicate (nat count) identity), instanceColor = None\<rparr>"
  from assms have c: "0 \<le> count" and e: "Ornaments_useLayoutEffect ?s0 = Inr s"
    by (auto simp: Ornaments_build_def Ornaments_useMemo_def new_Object3D_def Let_def
        split: if_splits)
  note f = Ornaments_useLayoutEffect_Inr [OF e]
  show "0 \<le> count" by (rule c)
  show "data s = fst ?r" using f by simp
  show "heap s = snd (snd ?r)" using f by simp
  show "tempObj s = \<lparr>o_position = length h, o_quaternion = Quat 0 0 0 1, o_scale = length h + 1\<rparr>"
    using f by simp
  show "meshRef s = Some (replicate (nat count) identity)" using f by simp
qed

lemma Ornaments_build_runs:
  assumes "0 < count" "count < 2 ^ 32"
  shows "\<exists>s. Ornaments_build rnd pal count st = Inr s"
proof -
  let ?r = "Ornaments_map rnd pal (nat count) (snd (new_Object3D st))"
  have "length (fst ?r) = nat count"
    by (rule Ornaments_map_length)
  then have "fst ?r \<noteq> []"
    using assms by auto
  then have "\<exists>s. Ornaments_useLayoutEffect
      \<lparr>heap = snd (snd ?r), data = fst ?r, tempObj = fst (new_Object3D st),
       meshRef = Some (replicate (nat count) identity), instanceColor = None\<rparr> = Inr s"
    by (intro Ornaments_useLayoutEffect_runs) simp
  then show ?thesis
    using assms by (simp add: Ornaments_build_def Ornaments_useMemo_def Let_def)
qed

lemma Ornaments_build_empty: "Ornaments_build rnd pal 0 st = Inl TypeError"
  by (simp add: Ornaments_build_def Ornaments_useMemo_def Ornaments_useLayoutEffect_def Let_def)

lemma Ornaments_build_apart:
  assumes "Ornaments_build rnd pal count (c, h) = Inr s"
  shows "apart s"
proof -
  let ?st = "(c + uuid_draws, h @ [Vec3 0 0 0, Vec3 1 1 1])"
  let ?n = "nat count"
  note m = Ornaments_build_Inr [OF assms]
  have len: "length (heap s) = length h + 2 + 3 * ?n"
    using m(3) by (simp add: Ornaments_map_store_length)
  have dlen: "length (data s) = ?n"
    using m(2) by (simp add: Ornaments_map_length)
  have refs: "rotAxis (data s ! k) = length h + 2 + 3 * k
      \<and> formPos (data s ! k) = length h + 2 + 3 * k + 1
      \<and> chaosPos (data s ! k) = length h + 2 + 3 * k + 2" if "k < ?n" for k
    using Ornaments_map_nth [OF that, of rnd pal ?st] m(2) by simp
  show ?thesis
    unfolding apart_def list_all_length
    using len dlen refs m(4) by auto
qed

lemma Ornaments_item_static:
  "scale (fst (Ornaments_item rnd pal st)) = 0.3 + rnd (fst st + 6) * 0.4"
  "snd (snd (Ornaments_item rnd pal st)) ! (length (snd st) + 1) = Ornaments_formed rnd (fst st)"
  by (simp_all add: Ornaments_item_def Let_def Ornaments_formed_def nth_append)

lemma Ornaments_map_static:
  "k < n \<Longrightarrow>
   scale (fst (Ornaments_map rnd pal n st) ! k) = 0.3 + rnd (fst st + 13 * k + 6) * 0.4
   \<and> snd (snd (Ornaments_map rnd pal n st)) ! (length (snd st) + 3 * k + 1)
       = Ornaments_formed rnd (fst st + 13 * k)"
proof (induction n arbitrary: st k)
  case 0
  then show ?case by simp
next
  case (Suc n)
  let ?item = "Ornaments_item rnd pal st"
  let ?st1 = "snd ?item"
  show ?case
  proof (cases k)
    case 0
    have "length (snd st) + 1 < length (snd ?st1)"
      by (simp add: Ornaments_item_store_length)
    then have "snd (snd (Ornaments_map rnd pal n ?st1)) ! (length (snd st) + 1)
                 = snd ?st1 ! (length (snd st) + 1)"
      by (rule Ornaments_map_store_prefix)
    then show ?thesis
      using 0 Ornaments_item_static [of rnd pal st] by (simp add: Let_def)
  next
    case (Suc k')
    then have "k' < n" using Suc.prems by simp
    note IH = Suc.IH [OF this, of ?st1]
    have a: "length (snd ?st1) + 3 * k' = length (snd st) + 3 * k"
      and c: "fst ?st1 + 13 * k' = fst st + 13 * k"
      using Suc by (simp_all add: Ornaments_item_store_length Ornaments_item_cursor)
    show ?thesis
      using IH Suc unfolding a c by (simp add: Let_def)
  qed
qed

lemma Ornaments_mount_Inr:
  assumes "Ornaments_mount rnd pal count c = Inr s"
  shows "0 \<le> count"
    and "data s = fst (Ornaments_map rnd pal (nat count) (c + uuid_draws, [Vec3 0 0 0, Vec3 1 1 1]))"
    and "heap s
          = snd (snd (Ornaments_map rnd pal (nat count) (c + uuid_draws, [Vec3 0 0 0, Vec3 1 1 1])))"
    and "tempObj s = \<lparr>o_position = 0, o_quaternion = Quat 0 0 0 1, o_scale = 1\<rparr>"
    and "meshRef s = Some (replicate (nat count) identity)"
  using Ornaments_build_Inr [of rnd pal count c "[]" s] assms
  by (simp_all add: Ornaments_mount_def)

lemma Ornaments_build_first:
  assumes b: "Ornaments_build rnd pal count (c, h) = Inr s" and n: "0 < count"
  shows "heap s ! formPos (data s ! 0) = Ornaments_formed rnd (c + uuid_draws)"
    and "heap s ! chaosPos (data s ! 0)
          = spec_shell 10 15 (rnd (c + uuid_draws + 3)) (rnd (c + uuid_draws + 4))
              (rnd (c + uuid_draws + 5))"
    and "color (data s ! 0)
          = THREE_Color (array_at pal \<lfloor>rnd (c + uuid_draws + 11) * real (length pal)\<rfloor>)"
    and "scale (data s ! 0) = 0.3 + rnd (c + uuid_draws + 6) * 0.4"
    and "a < length h \<Longrightarrow> heap s ! a = h ! a"
proof -
  let ?st = "(c + uuid_draws, h @ [Vec3 0 0 0, Vec3 1 1 1])"
  note m = Ornaments_build_Inr [OF b]
  have k: "0 < nat count"
    using n by simp
  note x = Ornaments_map_nth [OF k, of rnd pal ?st] Ornaments_map_static [OF k, of rnd pal ?st]
  show "heap s ! formPos (data s ! 0) = Ornaments_formed rnd (c + uuid_draws)"
    using x m(2) m(3) by simp
  show "heap s ! chaosPos (data s ! 0)
          = spec_shell 10 15 (rnd (c + uuid_draws + 3)) (rnd (c + uuid_draws + 4))
              (rnd (c + uuid_draws + 5))"
    using x m(2) m(3) by simp
  show "color (data s ! 0)
          = THREE_Color (array_at pal \<lfloor>rnd (c + uuid_draws + 11) * real (length pal)\<rfloor>)"
    using x m(2) by simp
  show "scale (data s ! 0) = 0.3 + rnd (c + uuid_draws + 6) * 0.4"
    using x m(2) by simp
  show "heap s ! a = h ! a" if "a < length h"
    using Ornaments_map_store_prefix [of a ?st rnd pal "nat count"] that m(3)
    by (simp add: nth_append)
qed

lemma Ornaments_mount_apart:
  assumes "Ornaments_mount rnd pal count c = Inr s"
  shows "apart s"
  using assms unfolding Ornaments_mount_def by (rule Ornaments_build_apart)

lemma Ornaments_each_data [simp]: "data (Ornaments_each t p s di) = data s"
  by (simp add: Ornaments_each_def Let_def)

lemma Ornaments_each_tempObj [simp]:
  "o_position (tempObj (Ornaments_each t p s di)) = o_position (tempObj s)"
  "o_scale (tempObj (Ornaments_each t p s di)) = o_scale (tempObj s)"
  by (simp_all add: Ornaments_each_def Let_def)

lemma Ornaments_each_heap_length [simp]:
  "length (heap (Ornaments_each t p s di)) = Suc (length (heap s))"
  by (simp add: Ornaments_each_def Let_def)

lemma Ornaments_each_heap_other:
  "a < length (heap s) \<Longrightarrow> a \<noteq> o_position (tempObj s) \<Longrightarrow> a \<noteq> o_scale (tempObj s) \<Longrightarrow>
   heap (Ornaments_each t p s di) ! a = heap s ! a"
  by (simp add: Ornaments_each_def Let_def nth_append)

lemma Ornaments_each_apart: "apart s \<Longrightarrow> apart (Ornaments_each t p s di)"
  unfolding apart_def list_all_iff by auto

lemma Ornaments_each_meshRef:
  "meshRef s = Some m \<Longrightarrow>
   \<exists>m'. meshRef (Ornaments_each t p s di) = Some m' \<and> length m' = length m
        \<and> (\<forall>k. k \<noteq> snd di \<longrightarrow> m' ! k = m ! k)"
  by (simp add: Ornaments_each_def Let_def)

lemma Ornaments_each_transform:
  assumes "o_position (tempObj s) < length (heap s)" "o_scale (tempObj s) < length (heap s)"
    and "o_position (tempObj s) \<noteq> o_scale (tempObj s)"
    and "formPos d < length (heap s)" "chaosPos d < length (heap s)" "rotAxis d < length (heap s)"
    and "rotAxis d \<noteq> o_position (tempObj s)"
    and "meshRef s = Some m" "i < length m"
  shows "the (meshRef (Ornaments_each t p s (d, i))) ! i
      = \<lparr>m_position = vadd (lerpVectors (heap s ! formPos d) (heap s ! chaosPos d) p)
                         (Vec3 0 (sin (t * 1.0 + randomOffset d) * 0.1) 0),
         m_quaternion = (if p > 0.5
            then multiplyQuaternions (o_quaternion (tempObj s))
                   (setFromAxisAngle (heap s ! rotAxis d) (rotSpeed d * 0.1))
            else setFromEuler 0 (t * 0.2 + randomOffset d) 0),
         m_scale = Vec3 (scale d) (scale d) (scale d)\<rparr>"
    and "o_quaternion (tempObj (Ornaments_each t p s (d, i)))
      = (if p > 0.5
            then multiplyQuaternions (o_quaternion (tempObj s))
                   (setFromAxisAngle (heap s ! rotAxis d) (rotSpeed d * 0.1))
            else setFromEuler 0 (t * 0.2 + randomOffset d) 0)"
  using assms
  by (simp_all add: Ornaments_each_def Let_def nth_append vadd_def lerpVectors_def)


lemma foldl_each_inv:
  "apart s \<Longrightarrow>
   data (foldl (Ornaments_each t p) s xs) = data s
   \<and> o_position (tempObj (foldl (Ornaments_each t p) s xs)) = o_position (tempObj s)
   \<and> o_scale (tempObj (foldl (Ornaments_each t p) s xs)) = o_scale (tempObj s)
   \<and> apart (foldl (Ornaments_each t p) s xs)
   \<and> length (heap s) \<le> length (heap (foldl (Ornaments_each t p) s xs))
   \<and> (\<forall>a. a < length (heap s) \<and> a \<noteq> o_position (tempObj s) \<and> a \<noteq> o_scale (tempObj s)
          \<longrightarrow> heap (foldl (Ornaments_each t p) s xs) ! a = heap s ! a)"
proof (induction xs arbitrary: s)
  case Nil
  then show ?case by simp
next
  case (Cons x xs)
  let ?s1 = "Ornaments_each t p s x"
  have a1: "apart ?s1"
    using Cons.prems by (rule Ornaments_each_apart)
  note IH = Cons.IH [OF a1]
  have "heap (foldl (Ornaments_each t p) ?s1 xs) ! a = heap s ! a"
    if "a < length (heap s)" "a \<noteq> o_position (tempObj s)" "a \<noteq> o_scale (tempObj s)" for a
  proof -
    have "heap (foldl (Ornaments_each t p) ?s1 xs) ! a = heap ?s1 ! a"
      using IH that by simp
    then show ?thesis
      using that by (simp add: Ornaments_each_heap_other)
  qed
  then show ?case
    using IH by simp
qed

lemma foldl_each_meshRef:
  "meshRef s = Some m \<Longrightarrow>
   \<exists>m'. meshRef (foldl (Ornaments_each t p) s xs) = Some m' \<and> length m' = length m"
proof (induction xs arbitrary: s m)
  case Nil
  then show ?case by simp
next
  case (Cons x xs)
  from Ornaments_each_meshRef [OF Cons.prems, of t p x]
  obtain m1 where "meshRef (Ornaments_each t p s x) = Some m1" "length m1 = length m"
    by blast
  with Cons.IH [of "Ornaments_each t p s x" m1] show ?case by simp
qed

lemma apart_entity:
  assumes "apart s" "k < length (data s)"
  shows "formPos (data s ! k) < length (heap s)" "chaosPos (data s ! k) < length (heap s)"
    "rotAxis (data s ! k) < length (heap s)"
    "formPos (data s ! k) \<noteq> o_position (tempObj s)" "formPos (data s ! k) \<noteq> o_scale (tempObj s)"
    "chaosPos (data s ! k) \<noteq> o_position (tempObj s)" "chaosPos (data s ! k) \<noteq> o_scale (tempObj s)"
    "rotAxis (data s ! k) \<noteq> o_position (tempObj s)" "rotAxis (data s ! k) \<noteq> o_scale (tempObj s)"
  using assms unfolding apart_def list_all_length by blast+

lemma apart_tempObj:
  assumes "apart s"
  shows "o_position (tempObj s) < length (heap s)" "o_scale (tempObj s) < length (heap s)"
    "o_position (tempObj s) \<noteq> o_scale (tempObj s)"
  using assms unfolding apart_def by blast+

lemma frame_prefix:
  assumes ap: "apart s" and mesh: "meshRef s = Some m" and len: "length m = length (data s)"
    and j: "j \<le> length (data s)"
  shows "\<exists>m'. meshRef (foldl (Ornaments_each t p) s
                  (take j (zip (data s) [0..<length (data s)]))) = Some m'
           \<and> length m' = length m
           \<and> (\<forall>k<j. m_position (m' ! k) = written_position t p s k)"
  using j
proof (induction j)
  case 0
  with mesh show ?case by simp
next
  case (Suc j)
  let ?xs = "zip (data s) [0..<length (data s)]"
  let ?sj = "foldl (Ornaments_each t p) s (take j ?xs)"
  let ?d = "data s ! j"
  from Suc have jlt: "j < length (data s)" by simp
  then have xj: "?xs ! j = (?d, j)" by simp
  have tk: "take (Suc j) ?xs = take j ?xs @ [(?d, j)]"
    using jlt xj by (simp add: take_Suc_conv_app_nth)
  from Suc.IH jlt obtain mj where mj: "meshRef ?sj = Some mj" "length mj = length m"
    and old: "\<forall>k<j. m_position (mj ! k) = written_position t p s k"
    by auto
  note inv = foldl_each_inv [OF ap, of t p "take j ?xs"]
  have dj: "data ?sj = data s" and apj: "apart ?sj"
    and pj: "o_position (tempObj ?sj) = o_position (tempObj s)"
    and sj: "o_scale (tempObj ?sj) = o_scale (tempObj s)"
    using inv by simp_all
  have keep: "heap ?sj ! a = heap s ! a"
    if "a < length (heap s)" "a \<noteq> o_position (tempObj s)" "a \<noteq> o_scale (tempObj s)" for a
    using inv that by simp
  note e = apart_entity [OF ap jlt]
  have ej: "formPos ?d < length (heap ?sj)" "chaosPos ?d < length (heap ?sj)"
    "rotAxis ?d < length (heap ?sj)" "rotAxis ?d \<noteq> o_position (tempObj ?sj)"
    using apart_entity [OF apj, of j] jlt dj by simp_all
  have jm: "j < length mj"
    using mj len jlt by simp
  have tr: "m_position (the (meshRef (Ornaments_each t p ?sj (?d, j))) ! j)
              = written_position t p s j"
    using Ornaments_each_transform(1) [OF apart_tempObj [OF apj] ej mj(1) jm, of t p]
    by (simp add: written_position_def keep e)
  from Ornaments_each_meshRef [OF mj(1), of t p "(?d, j)"]
  obtain m' where m': "meshRef (Ornaments_each t p ?sj (?d, j)) = Some m'"
    "length m' = length mj" "\<forall>k. k \<noteq> j \<longrightarrow> m' ! k = mj ! k"
    by auto
  have "m_position (m' ! k) = written_position t p s k" if "k < Suc j" for k
  proof (cases "k = j")
    case True
    with tr m'(1) show ?thesis by simp
  next
    case False
    with that have "k < j" by simp
    with old m'(3) False show ?thesis by simp
  qed
  with m' mj show ?case
    unfolding tk by simp
qed

lemma Ornaments_frame_position:
  assumes "mounted s" "k < length (data s)"
  shows "m_position (the (meshRef (Ornaments_frame t p s)) ! k) = written_position t p s k"
proof -
  from assms(1) obtain m where ap: "apart s" and mesh: "meshRef s = Some m"
    and len: "length m = length (data s)"
    by (auto simp: mounted_def split: option.splits)
  from frame_prefix [OF ap mesh len order_refl, of t p] assms(2) mesh
  show ?thesis
    by (auto simp: Ornaments_frame_def)
qed

lemma Ornaments_frame_inv:
  assumes "apart s"
  shows "data (Ornaments_frame t p s) = data s"
    and "apart (Ornaments_frame t p s)"
    and "o_position (tempObj (Ornaments_frame t p s)) = o_position (tempObj s)"
    and "o_scale (tempObj (Ornaments_frame t p s)) = o_scale (tempObj s)"
    and "length (heap s) \<le> length (heap (Ornaments_frame t p s))"
    and "a < length (heap s) \<Longrightarrow> a \<noteq> o_position (tempObj s) \<Longrightarrow> a \<noteq> o_scale (tempObj s) \<Longrightarrow>
         heap (Ornaments_frame t p s) ! a = heap s ! a"
  using assms foldl_each_inv [OF assms, of t p "zip (data s) [0..<length (data s)]"]
  by (auto simp: Ornaments_frame_def split: option.splits)

lemma Ornaments_frame_mounted:
  assumes "mounted s"
  shows "mounted (Ornaments_frame t p s)"
proof -
  from assms obtain m where ap: "apart s" and mesh: "meshRef s = Some m"
    and len: "length m = length (data s)"
    by (auto simp: mounted_def split: option.splits)
  from foldl_each_meshRef [OF mesh, of t p "zip (data s) [0..<length (data s)]"]
  obtain m' where "meshRef (Ornaments_frame t p s) = Some m'" "length m' = length m"
    using mesh by (auto simp: Ornaments_frame_def)
  then show ?thesis
    using Ornaments_frame_inv(1,2) [OF ap, where t = t and p = p] len by (simp add: mounted_def)
qed

lemma Ornaments_frames_inv:
  "apart s \<Longrightarrow>
   data (Ornaments_frames tps s) = data s
   \<and> apart (Ornaments_frames tps s)
   \<and> o_position (tempObj (Ornaments_frames tps s)) = o_position (tempObj s)
   \<and> o_scale (tempObj (Ornaments_frames tps s)) = o_scale (tempObj s)
   \<and> length (heap s) \<le> length (heap (Ornaments_frames tps s))
   \<and> (\<forall>a. a < length (heap s) \<and> a \<noteq> o_position (tempObj s) \<and> a \<noteq> o_scale (tempObj s)
          \<longrightarrow> heap (Ornaments_frames tps s) ! a = heap s ! a)"
proof (induction tps arbitrary: s)
  case Nil
  then show ?case by simp
next
  case (Cons tp tps)
  let ?s1 = "Ornaments_frame (fst tp) (snd tp) s"
  note f = Ornaments_frame_inv [OF Cons.prems, where t = "fst tp" and p = "snd tp"]
  note IH = Cons.IH [OF f(2)]
  have "heap (Ornaments_frames tps ?s1) ! a = heap s ! a"
    if "a < length (heap s)" "a \<noteq> o_position (tempObj s)" "a \<noteq> o_scale (tempObj s)" for a
  proof -
    have "heap (Ornaments_frames tps ?s1) ! a = heap ?s1 ! a"
      using IH that f by simp
    then show ?thesis
      using that f(6) by simp
  qed
  then show ?case
    using IH f by simp
qed

lemma Ornaments_mount_mounted:
  assumes "Ornaments_mount rnd pal count c = Inr s"
  shows "mounted s"
  using Ornaments_mount_apart [OF assms] Ornaments_mount_Inr [OF assms]
  by (simp add: mounted_def Ornaments_map_length)

section \<open>The positions at the two ends of the morph\<close>

lemma unit_spin_draws: "unit_draws spin_draws"
  by (simp add: unit_draws_def spin_draws_def)

lemma item_spin:
  "Ornaments_item spin_draws [''#FFD700''] (4, [Vec3 0 0 0, Vec3 1 1 1])
     = (\<lparr>formPos = 3, chaosPos = 4, scale = 3 / 10, rotSpeed = 1 / 2, rotAxis = 2,
               color = Style ''#FFD700'', randomOffset = 0\<rparr>,
        (17, [Vec3 0 0 0, Vec3 1 1 1, Vec3 0 1 0, Vec3 (22 / 5) (- 4) 0, Vec3 0 0 (- 10)]))"
  by (simp add: Ornaments_item_def Let_def spin_draws_def normalize_def vlength_def
      THREE_Color_def array_at_def real_sqrt_divide)

lemma mount_one_ornament: "Ornaments_mount spin_draws [''#FFD700''] 1 0 = Inr one_ornament"
  by (simp add: Ornaments_mount_def Ornaments_build_def Ornaments_useMemo_def new_Object3D_def
      uuid_draws_def Let_def item_spin Ornaments_useLayoutEffect_def setColorAt_def
      one_ornament_def)

lemma frames_mounted: "mounted s \<Longrightarrow> mounted (Ornaments_frames tps s)"
  by (induction tps arbitrary: s) (simp_all add: Ornaments_frame_mounted)

lemma smoothstep_01: "smoothstep 0 1 0 = 0" "smoothstep 0 1 1 = 1"
  by (simp_all add: smoothstep_def clamp_def)

lemma lerpVectors_01: "lerpVectors a b 0 = a" "lerpVectors a b 1 = b"
  by (simp_all add: lerpVectors_def)

lemma mix3_01: "mix3 a b 0 = a" "mix3 a b 1 = b"
  by (simp_all add: mix3_def mix_def)

lemma chaosMovement_noise:
  "chaosMovement time aChaosPos aRandom = vadd aChaosPos (foliage_noise time aRandom)"
  by (simp add: chaosMovement_def foliage_noise_def)

text \<open>
  C5, as amended. For every ornament of a mounted scene, after any frames, the position
  the frame callback writes at progress 0 is the formed position plus the float of the
  ornament, and at progress 1 the chaos position plus that float; the same holds for a
  photo with its own float. A foliage vertex at progress 1 is at its chaos position plus
  its noise; at progress 0 it is at its formed position exactly, since the shader adds the
  noise to the chaos position before the mix and the mix gives that sum the weight 0.
\<close>

theorem C5_endpoints:
  assumes "Ornaments_mount rnd colorPalette count c = Inr s0" and "k < length (data s0)"
  shows "m_position (the (meshRef (Ornaments_frame t 0 (Ornaments_frames tps s0))) ! k)
           = vadd (heap s0 ! formPos (data s0 ! k)) (floating t (data s0 ! k))
       \<and> m_position (the (meshRef (Ornaments_frame t 1 (Ornaments_frames tps s0))) ! k)
           = vadd (heap s0 ! chaosPos (data s0 ! k)) (floating t (data s0 ! k))
       \<and> Photo_frame_position position chaos 0 offset t = vadd position (Photo_float t offset)
       \<and> Photo_frame_position position chaos 1 offset t = vadd chaos (Photo_float t offset)
       \<and> finalPos time 1 position aChaosPos aRandom = vadd aChaosPos (foliage_noise time aRandom)
       \<and> finalPos time 0 position aChaosPos aRandom = position"
proof -
  let ?s = "Ornaments_frames tps s0"
  have m0: "mounted s0"
    using assms(1) by (rule Ornaments_mount_mounted)
  then have ap: "apart s0"
    by (simp add: mounted_def)
  have m: "mounted ?s"
    using m0 by (rule frames_mounted)
  note inv = Ornaments_frames_inv [OF ap, of tps]
  have d: "data ?s = data s0"
    using inv by simp
  note e = apart_entity [OF ap assms(2)]
  have hf: "heap ?s ! formPos (data s0 ! k) = heap s0 ! formPos (data s0 ! k)"
    and hc: "heap ?s ! chaosPos (data s0 ! k) = heap s0 ! chaosPos (data s0 ! k)"
    using inv e by simp_all
  have k: "k < length (data ?s)"
    using assms(2) d by simp
  have w: "written_position t p ?s k
      = vadd (lerpVectors (heap s0 ! formPos (data s0 ! k)) (heap s0 ! chaosPos (data s0 ! k)) p)
          (floating t (data s0 ! k))" for p
    by (simp add: written_position_def floating_def d hf hc)
  have o0: "m_position (the (meshRef (Ornaments_frame t 0 ?s)) ! k)
           = vadd (heap s0 ! formPos (data s0 ! k)) (floating t (data s0 ! k))"
    using Ornaments_frame_position [OF m k, of t 0] w [of 0] by (simp add: lerpVectors_01)
  have o1: "m_position (the (meshRef (Ornaments_frame t 1 ?s)) ! k)
           = vadd (heap s0 ! chaosPos (data s0 ! k)) (floating t (data s0 ! k))"
    using Ornaments_frame_position [OF m k, of t 1] w [of 1] by (simp add: lerpVectors_01)
  have p0: "Photo_frame_position position chaos 0 offset t = vadd position (Photo_float t offset)"
    by (simp add: Photo_frame_position_def Let_def lerpVectors_01 vadd_def Photo_float_def)
  have p1: "Photo_frame_position position chaos 1 offset t = vadd chaos (Photo_float t offset)"
    by (simp add: Photo_frame_position_def Let_def lerpVectors_01 vadd_def Photo_float_def)
  have f1: "finalPos time 1 position aChaosPos aRandom
              = vadd aChaosPos (foliage_noise time aRandom)"
    by (simp add: finalPos_def Let_def smoothstep_01 mix3_01 chaosMovement_noise)
  have f0: "finalPos time 0 position aChaosPos aRandom = position"
    by (simp add: finalPos_def Let_def smoothstep_01 mix3_01)
  from o0 o1 p0 p1 f1 f0 show ?thesis by blast
qed

text \<open>
  The witness: the scene of one ornament, at the time \<open>\<pi>/2\<close>, where the float is
  \<open>0.1\<close> upwards.
\<close>

theorem C5_endpoints_witness:
  "m_position (the (meshRef (Ornaments_frame (pi / 2) 0 one_ornament)) ! 0)
     = Vec3 (22 / 5) (- 39 / 10) 0
   \<and> m_position (the (meshRef (Ornaments_frame (pi / 2) 1 one_ornament)) ! 0)
     = Vec3 0 (1 / 10) (- 10)"
proof -
  have k: "0 < length (data one_ornament)"
    by (simp add: one_ornament_def)
  show ?thesis
    using C5_endpoints [OF mount_one_ornament k, of "pi / 2" "[]"]
    by (simp add: one_ornament_def floating_def vadd_def)
qed

text \<open>
  The claim as stated fails for the foliage at progress 0: at time 0 the noise of a vertex
  with \<^verbatim>\<open>aRandom\<close> 0 is \<open>(0, 0.5, 0)\<close>, and the vertex is at its formed
  position, not at the formed position plus the noise.
\<close>

theorem C5_foliage_formed_without_noise:
  "finalPos 0 0 (Vec3 0 0 0) (Vec3 1 1 1) 0 = Vec3 0 0 0
   \<and> vadd (Vec3 0 0 0) (foliage_noise 0 0) = Vec3 0 (1 / 2) 0
   \<and> finalPos 0 0 (Vec3 0 0 0) (Vec3 1 1 1) 0 \<noteq> vadd (Vec3 0 0 0) (foliage_noise 0 0)"
  by (simp add: finalPos_def Let_def smoothstep_01 mix3_01 foliage_noise_def vadd_def)

section \<open>The orientation of an ornament\<close>

lemma setFromEuler_y: "setFromEuler 0 a 0 = setFromAxisAngle (Vec3 0 1 0) a"
  by (simp add: setFromEuler_def setFromAxisAngle_def Let_def)

lemma multiply_identity: "multiplyQuaternions (Quat 0 0 0 1) q = q"
  by (cases q) (simp add: multiplyQuaternions_def)

lemma mounted_one_ornament: "mounted one_ornament"
  using mount_one_ornament by (rule Ornaments_mount_mounted)

lemma foldl_each_mounted:
  assumes "mounted s"
  shows "mounted (foldl (Ornaments_each t p) s xs)"
proof -
  from assms obtain m where ap: "apart s" and mesh: "meshRef s = Some m"
    and len: "length m = length (data s)"
    by (auto simp: mounted_def split: option.splits)
  from foldl_each_meshRef [OF mesh, of t p xs]
  obtain m' where "meshRef (foldl (Ornaments_each t p) s xs) = Some m'" "length m' = length m"
    by blast
  then show ?thesis
    using foldl_each_inv [OF ap, of t p xs] len by (simp add: mounted_def)
qed

lemma cos_differ: "cos (1 / 40 :: real) \<noteq> cos (1 / 4)"
  using cos_monotone_0_pi [of "1 / 40" "1 / 4"] pi_ge_two by simp

text \<open>
  C6, as amended. The state a mount gives is mounted, and so is every state the steps of
  a frame go through. In a mounted state, the step of the frame callback for ornament \<open>k\<close>
  leaves \<^verbatim>\<open>tempObj\<close>, and writes to instance \<open>k\<close>, this orientation: if
  \<open>progress > 0.5\<close>, the orientation \<^verbatim>\<open>tempObj\<close> had before the step, turned
  about the static axis of the ornament by \<open>rotSpeed * 0.1\<close>, a step that does not
  depend on the time between frames; otherwise the turn by
  \<open>t * 0.2 + randomOffset\<close> about the \<open>y\<close> axis, whatever the orientation was
  before. At \<open>progress = 0.5\<close> it is the second; nothing blends the two.
\<close>

theorem C6_orientation:
  assumes "mounted s" and "k < length (data s)"
  shows "o_quaternion (tempObj (Ornaments_each t progress s (data s ! k, k)))
           = (if progress > 0.5
              then multiplyQuaternions (o_quaternion (tempObj s))
                     (setFromAxisAngle (heap s ! rotAxis (data s ! k)) (rotSpeed (data s ! k) * 0.1))
              else setFromAxisAngle (Vec3 0 1 0) (t * 0.2 + randomOffset (data s ! k)))
         \<and> m_quaternion (the (meshRef (Ornaments_each t progress s (data s ! k, k))) ! k)
           = o_quaternion (tempObj (Ornaments_each t progress s (data s ! k, k)))
         \<and> o_quaternion (tempObj (Ornaments_each t 0.5 s (data s ! k, k)))
           = setFromAxisAngle (Vec3 0 1 0) (t * 0.2 + randomOffset (data s ! k))"
proof -
  let ?d = "data s ! k"
  from assms(1) obtain m where ap: "apart s" and mesh: "meshRef s = Some m"
    and len: "length m = length (data s)"
    by (auto simp: mounted_def split: option.splits)
  have km: "k < length m"
    using assms(2) len by simp
  note e = apart_entity [OF ap assms(2)]
  note tr = Ornaments_each_transform
    [OF apart_tempObj [OF ap] e(1) e(2) e(3) e(8) mesh km]
  have q: "o_quaternion (tempObj (Ornaments_each t p s (?d, k)))
           = (if p > 0.5
              then multiplyQuaternions (o_quaternion (tempObj s))
                     (setFromAxisAngle (heap s ! rotAxis ?d) (rotSpeed ?d * 0.1))
              else setFromAxisAngle (Vec3 0 1 0) (t * 0.2 + randomOffset ?d))" for p
    using tr(2) [of t p] by (simp add: setFromEuler_y)
  have mq: "m_quaternion (the (meshRef (Ornaments_each t progress s (?d, k))) ! k)
           = o_quaternion (tempObj (Ornaments_each t progress s (?d, k)))"
    using tr(1) [of t progress] tr(2) [of t progress] by simp
  have half: "o_quaternion (tempObj (Ornaments_each t 0.5 s (?d, k)))
           = setFromAxisAngle (Vec3 0 1 0) (t * 0.2 + randomOffset ?d)"
    using q [of "0.5"] by simp
  from q [of progress] mq half show ?thesis by blast
qed

text \<open>
  The witness: the scene of one ornament at time 0, once at progress 1 and once at
  progress \<open>1/2\<close>.
\<close>

theorem C6_orientation_witness:
  "o_quaternion (tempObj (Ornaments_each 0 1 one_ornament (data one_ornament ! 0, 0)))
     = setFromAxisAngle (Vec3 0 1 0) (1 / 20)
   \<and> o_quaternion (tempObj (Ornaments_each 0 (1 / 2) one_ornament (data one_ornament ! 0, 0)))
     = Quat 0 0 0 1"
proof -
  have k: "0 < length (data one_ornament)"
    by (simp add: one_ornament_def)
  have a: "o_quaternion (tempObj (Ornaments_each 0 1 one_ornament (data one_ornament ! 0, 0)))
     = setFromAxisAngle (Vec3 0 1 0) (1 / 20)"
    using C6_orientation [OF mounted_one_ornament k, of 0 1]
    by (simp add: one_ornament_def multiply_identity)
  have b: "o_quaternion (tempObj (Ornaments_each 0 (1 / 2) one_ornament (data one_ornament ! 0, 0)))
     = Quat 0 0 0 1"
    using C6_orientation [OF mounted_one_ornament k, of 0 "1 / 2"]
    by (simp add: one_ornament_def setFromAxisAngle_def)
  from a b show ?thesis by blast
qed

text \<open>
  The claim as stated fails: for the ornament of speed \<open>1/2\<close>, the frame at elapsed
  time 1 and the frame at elapsed time 3 turn \<^verbatim>\<open>tempObj\<close> by the same angle
  \<open>1/2 * 0.1\<close>; with a time of 1 since the frame before, \<open>rotSpeed * timeDelta\<close>
  would be the angle \<open>1/2\<close>, another orientation.
\<close>

theorem C6_step_not_time_delta:
  "o_quaternion (tempObj (Ornaments_each 1 1 one_ornament (data one_ornament ! 0, 0)))
     = setFromAxisAngle (Vec3 0 1 0) (1 / 2 * 0.1)
   \<and> o_quaternion (tempObj (Ornaments_each 1 1 one_ornament (data one_ornament ! 0, 0)))
     = o_quaternion (tempObj (Ornaments_each 3 1 one_ornament (data one_ornament ! 0, 0)))
   \<and> setFromAxisAngle (Vec3 0 1 0) (1 / 2 * 0.1) \<noteq> setFromAxisAngle (Vec3 0 1 0) (1 / 2 * (1 - 0))"
proof -
  have a: "o_quaternion (tempObj (Ornaments_each t 1 one_ornament (data one_ornament ! 0, 0)))
     = setFromAxisAngle (Vec3 0 1 0) (1 / 2 * 0.1)" for t
    by (simp add: Ornaments_each_def Let_def one_ornament_def multiply_identity nth_append)
  have b: "setFromAxisAngle (Vec3 0 1 0) (1 / 2 * 0.1) \<noteq> setFromAxisAngle (Vec3 0 1 0) (1 / 2 * (1 - 0))"
    using cos_differ by (simp add: setFromAxisAngle_def Let_def)
  from a [of 1] a [of 3] b show ?thesis by simp
qed

section \<open>The static data over frames and renders\<close>

lemma Foliage_frames_buffers: "buffers (Foliage_frames tps fs) = buffers fs"
  by (induction tps arbitrary: fs) (simp_all add: Foliage_frame_def)

text \<open>
  Between two renders the frame callbacks leave the static data alone. In the state a
  mount of Ornaments gives, after any number of frames at any times and progress values:
  \<^verbatim>\<open>data\<close> is the same list, so every ornament has the same colour, scale and
  addresses; the vectors at the addresses \<^verbatim>\<open>formPos\<close>, \<^verbatim>\<open>chaosPos\<close> and
  \<^verbatim>\<open>rotAxis\<close> of every ornament hold the same values; of the vectors that were in
  the store, only the position and the scale of \<^verbatim>\<open>tempObj\<close> can have changed. The
  frames of Foliage leave its three buffers as they were.
\<close>

lemma frames_keep_static_fields:
  assumes "Ornaments_mount rnd colorPalette count c = Inr s" and "k < length (data s)"
  shows "data (Ornaments_frames tps s) = data s
       \<and> heap (Ornaments_frames tps s) ! formPos (data s ! k) = heap s ! formPos (data s ! k)
       \<and> heap (Ornaments_frames tps s) ! chaosPos (data s ! k) = heap s ! chaosPos (data s ! k)
       \<and> heap (Ornaments_frames tps s) ! rotAxis (data s ! k) = heap s ! rotAxis (data s ! k)
       \<and> color (data (Ornaments_frames tps s) ! k) = color (data s ! k)
       \<and> scale (data (Ornaments_frames tps s) ! k) = scale (data s ! k)
       \<and> (a < length (heap s) \<and> a \<noteq> o_position (tempObj s) \<and> a \<noteq> o_scale (tempObj s)
            \<longrightarrow> heap (Ornaments_frames tps s) ! a = heap s ! a)
       \<and> buffers (Foliage_frames tps fs) = buffers fs"
proof -
  have ap: "apart s"
    using assms(1) by (rule Ornaments_mount_apart)
  note inv = Ornaments_frames_inv [OF ap, of tps]
  note e = apart_entity [OF ap assms(2)]
  have d: "data (Ornaments_frames tps s) = data s"
    using inv by simp
  have keep: "heap (Ornaments_frames tps s) ! b = heap s ! b"
    if "b < length (heap s)" "b \<noteq> o_position (tempObj s)" "b \<noteq> o_scale (tempObj s)" for b
    using inv that by simp
  have f: "heap (Ornaments_frames tps s) ! formPos (data s ! k) = heap s ! formPos (data s ! k)"
    using e by (intro keep)
  have ch: "heap (Ornaments_frames tps s) ! chaosPos (data s ! k) = heap s ! chaosPos (data s ! k)"
    using e by (intro keep)
  have ax: "heap (Ornaments_frames tps s) ! rotAxis (data s ! k) = heap s ! rotAxis (data s ! k)"
    using e by (intro keep)
  from d f ch ax keep [of a] Foliage_frames_buffers [of tps fs] show ?thesis
    by simp
qed

text \<open>
  A render with the dependencies of the render before keeps \<^verbatim>\<open>data\<close>: this is
  what \<^verbatim>\<open>useMemo\<close> is there for.
\<close>

lemma Ornaments_render_same_dependencies:
  assumes "dependencies props = memo_deps inst"
  shows "\<exists>inst'. Ornaments_render rnd c props inst = Inr inst'
           \<and> data (scene inst') = data (scene inst)
           \<and> (\<forall>a < length (heap (scene inst)). heap (scene inst') ! a = heap (scene inst) ! a)"
  using assms by (simp add: Ornaments_render_def new_Object3D_def Let_def nth_append)

lemma formed_at_0: "Ornaments_formed fresh_draws 4 = Vec3 (22 / 5) (- 4) 0"
  by (simp add: Ornaments_formed_def fresh_draws_def Let_def)

lemma formed_at_half: "Ornaments_formed fresh_draws 3004 = Vec3 (- 209 / 80) 2 0"
  by (simp add: Ornaments_formed_def fresh_draws_def Let_def)

lemma shell_at_0: "spec_shell 10 15 0 0 0 = Vec3 0 0 (- 10)"
  by (simp add: spec_shell_def Let_def)

lemma shell_at_half: "spec_shell 10 15 (1 / 2) (1 / 2) (1 / 2) = Vec3 (- 35 / 2) 0 0"
  by (simp add: spec_shell_def Let_def)

text \<open>
  C10. The static fields of the ornaments do not stay the same over the ticks of the
  animation. A tick that changes the progress makes React render
  \<^verbatim>\<open>SceneContent\<close>, which gives Ornaments a new \<^verbatim>\<open>colorPalette\<close> array with
  the same items; \<^verbatim>\<open>useMemo\<close> sees another dependency and builds \<^verbatim>\<open>data\<close>
  again from new draws. Here the 200 balls are mounted at progress 0 on draws that are
  all 0, and rendered again at progress \<open>1/20\<close> on draws that are all \<open>1/2\<close>: count,
  type and the items of the palette are the same, and ornament 0 has another formed
  position, another chaos position, another colour and another scale.
\<close>

theorem C10_render_rebuilds_data:
  "\<exists>before after.
     Ornaments_first_render fresh_draws 0 (fst (fst (SceneContent 0 0))) = Inr before
     \<and> Ornaments_render fresh_draws 3000 (fst (fst (SceneContent (1 / 20) 2))) before = Inr after
     \<and> prop_count (fst (fst (SceneContent (1 / 20) 2))) = prop_count (fst (fst (SceneContent 0 0)))
     \<and> prop_type (fst (fst (SceneContent (1 / 20) 2))) = prop_type (fst (fst (SceneContent 0 0)))
     \<and> array_items (prop_colorPalette (fst (fst (SceneContent (1 / 20) 2))))
         = array_items (prop_colorPalette (fst (fst (SceneContent 0 0))))
     \<and> heap (scene before) ! formPos (data (scene before) ! 0) = Vec3 (22 / 5) (- 4) 0
     \<and> heap (scene after) ! formPos (data (scene after) ! 0) = Vec3 (- 209 / 80) 2 0
     \<and> heap (scene before) ! chaosPos (data (scene before) ! 0) = Vec3 0 0 (- 10)
     \<and> heap (scene after) ! chaosPos (data (scene after) ! 0) = Vec3 (- 35 / 2) 0 0
     \<and> color (data (scene before) ! 0) = Style ''#FFD700''
     \<and> color (data (scene after) ! 0) = Style ''#D4AF37''
     \<and> scale (data (scene before) ! 0) = 3 / 10
     \<and> scale (data (scene after) ! 0) = 1 / 2"
proof -
  let ?pal = "[''#FFD700'', ''#C0C0C0'', ''#D4AF37'', ''#B8860B'']"
  let ?p0 = "fst (fst (SceneContent 0 0))" and ?p1 = "fst (fst (SceneContent (1 / 20) 2))"
  have props: "prop_count ?p0 = 200" "prop_count ?p1 = 200" "prop_type ?p0 = ball"
    "prop_type ?p1 = ball" "array_items (prop_colorPalette ?p0) = ?pal"
    "array_items (prop_colorPalette ?p1) = ?pal"
    "dependencies ?p0 = (200, ball, 0)" "dependencies ?p1 = (200, ball, 2)"
    by (simp_all add: SceneContent_def dependencies_def)
  obtain s0 where s0: "Ornaments_build fresh_draws ?pal 200 (0, []) = Inr s0"
    using Ornaments_build_runs [of 200 fresh_draws ?pal "(0, [])"] by auto
  define before where
    "before = \<lparr>scene = s0, memo_deps = (200, ball, 0 :: nat), frame_progress = 0 :: real\<rparr>"
  have first: "Ornaments_first_render fresh_draws 0 ?p0 = Inr before"
    using s0 by (simp add: Ornaments_first_render_def Ornaments_mount_def before_def
        SceneContent_def dependencies_def)
  obtain s1 where s1: "Ornaments_build fresh_draws ?pal 200 (3000, heap s0) = Inr s1"
    using Ornaments_build_runs [of 200 fresh_draws ?pal "(3000, heap s0)"] by auto
  define after where
    "after = \<lparr>scene = s1, memo_deps = (200, ball, 2 :: nat), frame_progress = 1 / 20 :: real\<rparr>"
  have again: "Ornaments_render fresh_draws 3000 ?p1 before = Inr after"
    using s1 by (simp add: Ornaments_render_def before_def after_def SceneContent_def
        dependencies_def)
  note b0 = Ornaments_build_first [OF s0]
  note b1 = Ornaments_build_first [OF s1]
  have f0: "heap s0 ! formPos (data s0 ! 0) = Vec3 (22 / 5) (- 4) 0"
    using b0(1) by (simp add: uuid_draws_def formed_at_0)
  have f1: "heap s1 ! formPos (data s1 ! 0) = Vec3 (- 209 / 80) 2 0"
    using b1(1) by (simp add: uuid_draws_def formed_at_half)
  have c0: "heap s0 ! chaosPos (data s0 ! 0) = Vec3 0 0 (- 10)"
    using b0(2) by (simp add: uuid_draws_def fresh_draws_def shell_at_0)
  have c1: "heap s1 ! chaosPos (data s1 ! 0) = Vec3 (- 35 / 2) 0 0"
    using b1(2) by (simp add: uuid_draws_def fresh_draws_def shell_at_half)
  have k0: "color (data s0 ! 0) = Style ''#FFD700''"
    using b0(3) by (simp add: uuid_draws_def fresh_draws_def THREE_Color_def array_at_def)
  have k1: "color (data s1 ! 0) = Style ''#D4AF37''"
    using b1(3) by (simp add: uuid_draws_def fresh_draws_def THREE_Color_def array_at_def)
  have z0: "scale (data s0 ! 0) = 3 / 10"
    using b0(4) by (simp add: uuid_draws_def fresh_draws_def)
  have z1: "scale (data s1 ! 0) = 1 / 2"
    using b1(4) by (simp add: uuid_draws_def fresh_draws_def)
  have sc: "scene before = s0" "scene after = s1"
    by (simp_all add: before_def after_def)
  show ?thesis
    using first again props f0 f1 c0 c1 k0 k1 z0 z1 unfolding sc [symmetric]
    by (intro exI [of _ before] exI [of _ after]) simp
qed

section \<open>Counts and palettes that are not checked\<close>

lemma Ornaments_map_colors:
  "list_all (\<lambda>d. color d = White) (fst (Ornaments_map rnd [] n st))"
  by (induction n arbitrary: st)
    (simp_all add: Let_def Ornaments_item_color THREE_Color_def array_at_def)

text \<open>
  C9, as amended. The creation of the ornament set checks neither the count nor the
  palette. A negative count fails, with the RangeError of \<^verbatim>\<open>new Array\<close>; the
  count 0 gives the empty array; with an empty palette and any count that
  \<^verbatim>\<open>new Array\<close> takes, the set is built and every ornament has the white of
  \<^verbatim>\<open>new THREE.Color(undefined)\<close>.
\<close>

theorem C9_no_validation:
  "(count < 0 \<longrightarrow> Ornaments_useMemo rnd colorPalette count st = Inl RangeError)
   \<and> Ornaments_useMemo rnd colorPalette 0 st = Inr ([], st)
   \<and> (0 \<le> count \<and> count < 2 ^ 32 \<longrightarrow>
        Ornaments_useMemo rnd [] count st = Inr (Ornaments_map rnd [] (nat count) st)
        \<and> length (fst (Ornaments_map rnd [] (nat count) st)) = nat count
        \<and> list_all (\<lambda>d. color d = White) (fst (Ornaments_map rnd [] (nat count) st)))"
  by (simp add: Ornaments_useMemo_def Ornaments_map_length Ornaments_map_colors)

text \<open>The witness: the count \<open>-1\<close>, and the count 2 with the empty palette.\<close>

theorem C9_no_validation_witness:
  "Ornaments_useMemo spin_draws [''#FFD700''] (- 1) (0, []) = Inl RangeError
   \<and> map color (fst (Ornaments_map spin_draws [] (nat 2) (0, []))) = [White, White]"
proof -
  note t = C9_no_validation [of "- 1" spin_draws "[''#FFD700'']" "(0, [])"]
    C9_no_validation [of 2 spin_draws "[]" "(0, [])"]
  have l: "xs = [White, White]" if "length xs = 2" "list_all (\<lambda>c. c = White) xs" for xs :: "Color list"
    using that by (cases xs; cases "tl xs") auto
  have "length (map color (fst (Ornaments_map spin_draws [] (nat 2) (0, [])))) = 2"
    using t by simp
  moreover have "list_all (\<lambda>c. c = White) (map color (fst (Ornaments_map spin_draws [] (nat 2) (0, []))))"
    using t by (simp add: list_all_iff)
  ultimately have "map color (fst (Ornaments_map spin_draws [] (nat 2) (0, []))) = [White, White]"
    by (rule l)
  with t show ?thesis by simp
qed

text \<open>
  The claim as stated fails: the count 0 and the empty palette both give a result, an
  empty array and an ornament in the default white.
\<close>

theorem C9_degenerate_sets_are_built:
  "Ornaments_useMemo spin_draws [''#FFD700''] 0 (0, []) = Inr ([], (0, []))
   \<and> Ornaments_useMemo spin_draws [] 1 (0, []) = Inr (Ornaments_map spin_draws [] 1 (0, []))
   \<and> map color (fst (Ornaments_map spin_draws [] 1 (0, []))) = [White]"
  by (simp add: Ornaments_useMemo_def Let_def Ornaments_item_color THREE_Color_def array_at_def)

section \<open>The chaos positions\<close>

lemma sphere_identity:
  "(R * s * a)\<^sup>2 + (R * s * b)\<^sup>2 + (R * c)\<^sup>2 = R\<^sup>2 * (s\<^sup>2 * (a\<^sup>2 + b\<^sup>2) + c\<^sup>2)"
  for R :: real
  by (simp add: power2_eq_square algebra_simps)

lemma circle_identity: "(r * a)\<^sup>2 + (r * b)\<^sup>2 = r\<^sup>2 * (a\<^sup>2 + b\<^sup>2)"
  for r :: real
  by (simp add: power2_eq_square algebra_simps)

lemma shell_norm:
  "(vx (spec_shell Rmin Rrange p q w))\<^sup>2 + (vy (spec_shell Rmin Rrange p q w))\<^sup>2
     + (vz (spec_shell Rmin Rrange p q w))\<^sup>2 = (Rmin + p * Rrange)\<^sup>2"
proof -
  let ?R = "Rmin + p * Rrange" and ?t = "q * (2 * pi)" and ?p = "arccos (2 * w - 1)"
  have "(?R * sin ?p * cos ?t)\<^sup>2 + (?R * sin ?p * sin ?t)\<^sup>2 + (?R * cos ?p)\<^sup>2
      = ?R\<^sup>2 * ((sin ?p)\<^sup>2 * ((cos ?t)\<^sup>2 + (sin ?t)\<^sup>2) + (cos ?p)\<^sup>2)"
    by (rule sphere_identity)
  also have "\<dots> = ?R\<^sup>2"
    by simp
  finally show ?thesis
    by (simp only: spec_shell_def Let_def vec3.sel)
qed

lemma shell_height:
  assumes "0 \<le> w" "w < 1"
  shows "vz (spec_shell Rmin Rrange p q w) = (Rmin + p * Rrange) * (2 * w - 1)"
  using assms by (simp add: spec_shell_def Let_def)

lemma shell_radius:
  assumes "0 \<le> p" "p < 1" "0 < Rrange"
  shows "Rmin \<le> Rmin + p * Rrange \<and> Rmin + p * Rrange < Rmin + (Rrange :: real)"
proof -
  have "0 \<le> p * Rrange"
    using assms by simp
  moreover have "p * Rrange < 1 * Rrange"
    using assms by (intro mult_strict_right_mono)
  ultimately show ?thesis by simp
qed

lemma Photo_chaosPos_cylinder:
  "(vx (Photo_chaosPos rnd c))\<^sup>2 + (vz (Photo_chaosPos rnd c))\<^sup>2 = (20 + rnd c * 10)\<^sup>2"
  "vy (Photo_chaosPos rnd c) = (rnd (c + 2) - 1 / 2) * 20"
proof -
  let ?r = "20 + rnd c * 10" and ?t = "rnd (c + 1) * pi * 2"
  have "(?r * cos ?t)\<^sup>2 + (?r * sin ?t)\<^sup>2 = ?r\<^sup>2 * ((cos ?t)\<^sup>2 + (sin ?t)\<^sup>2)"
    by (rule circle_identity)
  also have "\<dots> = ?r\<^sup>2"
    by simp
  finally show "(vx (Photo_chaosPos rnd c))\<^sup>2 + (vz (Photo_chaosPos rnd c))\<^sup>2 = ?r\<^sup>2"
    by (simp only: Photo_chaosPos_def Let_def vec3.sel)
  show "vy (Photo_chaosPos rnd c) = (rnd (c + 2) - 1 / 2) * 20"
    by (simp add: Photo_chaosPos_def Let_def)
qed

lemma Ornaments_chaos:
  assumes "Ornaments_mount rnd pal count c = Inr s" "k < length (data s)"
  shows "heap s ! chaosPos (data s ! k)
    = spec_shell 10 15 (rnd (c + uuid_draws + 13 * k + 3)) (rnd (c + uuid_draws + 13 * k + 4))
        (rnd (c + uuid_draws + 13 * k + 5))"
proof -
  note m = Ornaments_mount_Inr [OF assms(1)]
  have k: "k < nat count"
    using assms(2) m(2) by (simp add: Ornaments_map_length)
  show ?thesis
    using Ornaments_map_nth [OF k, of rnd pal "(c + uuid_draws, [Vec3 0 0 0, Vec3 1 1 1])"]
      m(2) m(3)
    by simp
qed

lemma Photo_chaosPos_polar:
  "Photo_chaosPos rnd c
     = Vec3 ((20 + rnd c * 10) * cos (rnd (c + 1) * (2 * pi))) ((rnd (c + 2) - 1 / 2) * 20)
            ((20 + rnd c * 10) * sin (rnd (c + 1) * (2 * pi)))"
  by (simp add: Photo_chaosPos_def Let_def mult.commute mult.left_commute)

text \<open>
  C4, as amended. With every value of Math.random in \<open>[0, 1)\<close>: the chaos position
  of foliage vertex \<open>i\<close> is the shell rule with \<open>Rmin = 15\<close>, \<open>Rrange = 10\<close> on the
  fourth to sixth draws of iteration \<open>i\<close>, and that of ornament \<open>k\<close> is the shell rule
  with \<open>Rmin = 10\<close>, \<open>Rrange = 15\<close> on the fourth to sixth draws of ornament \<open>k\<close>
  (the draws of the ornaments follow those of the uuid of \<^verbatim>\<open>tempObj\<close>).
  The shell rule on such draws has its radius in \<open>[Rmin, Rmin + Rrange)\<close>, its
  \<open>theta\<close> in \<open>[0, 2\<pi>)\<close> and the argument of \<open>arccos\<close> in \<open>[-1, 1)\<close>; the point
  is at the distance of the radius from the origin, and its third coordinate is the radius
  times the argument of \<open>arccos\<close>. The chaos position of a photo is not on a shell: with
  \<open>r = 20 + u\<^sub>1 * 10\<close> in \<open>[20, 30)\<close>, \<open>theta = u\<^sub>2 * 2\<pi>\<close> in \<open>[0, 2\<pi>)\<close> and
  \<open>y = (u\<^sub>3 - 1/2) * 20\<close> in \<open>[-10, 10)\<close> on its three draws, it is
  \<open>(r cos theta, y, r sin theta)\<close>, on the upright cylinder of radius \<open>r\<close>.
\<close>

theorem C4_chaos_positions:
  assumes "unit_draws rnd"
  shows "(i < Foliage_count \<longrightarrow>
            triple_at (chaosPositions (snd (Foliage_useMemo rnd c))) i
              = spec_shell 15 10 (rnd (c + 7 * i + 3)) (rnd (c + 7 * i + 4)) (rnd (c + 7 * i + 5)))
       \<and> (Ornaments_mount rnd colorPalette count c = Inr s \<and> k < length (data s) \<longrightarrow>
            heap s ! chaosPos (data s ! k)
              = spec_shell 10 15 (rnd (c + uuid_draws + 13 * k + 3))
                  (rnd (c + uuid_draws + 13 * k + 4)) (rnd (c + uuid_draws + 13 * k + 5)))
       \<and> (0 < Rrange \<longrightarrow>
            Rmin \<le> Rmin + rnd n * Rrange \<and> Rmin + rnd n * Rrange < Rmin + Rrange
            \<and> 0 \<le> rnd n' * (2 * pi) \<and> rnd n' * (2 * pi) < 2 * pi
            \<and> - 1 \<le> 2 * rnd n'' - 1 \<and> 2 * rnd n'' - 1 < 1
            \<and> (vx (spec_shell Rmin Rrange (rnd n) (rnd n') (rnd n'')))\<^sup>2
                + (vy (spec_shell Rmin Rrange (rnd n) (rnd n') (rnd n'')))\<^sup>2
                + (vz (spec_shell Rmin Rrange (rnd n) (rnd n') (rnd n'')))\<^sup>2
                = (Rmin + rnd n * Rrange)\<^sup>2
            \<and> vz (spec_shell Rmin Rrange (rnd n) (rnd n') (rnd n''))
                = (Rmin + rnd n * Rrange) * (2 * rnd n'' - 1))
       \<and> Photo_chaosPos rnd cp
           = Vec3 ((20 + rnd cp * 10) * cos (rnd (cp + 1) * (2 * pi)))
                  ((rnd (cp + 2) - 1 / 2) * 20)
                  ((20 + rnd cp * 10) * sin (rnd (cp + 1) * (2 * pi)))
       \<and> 0 \<le> rnd (cp + 1) * (2 * pi) \<and> rnd (cp + 1) * (2 * pi) < 2 * pi
       \<and> (vx (Photo_chaosPos rnd cp))\<^sup>2 + (vz (Photo_chaosPos rnd cp))\<^sup>2
           = (20 + rnd cp * 10)\<^sup>2
       \<and> 20 \<le> 20 + rnd cp * 10 \<and> 20 + rnd cp * 10 < 30
       \<and> vy (Photo_chaosPos rnd cp) = (rnd (cp + 2) - 1 / 2) * 20
       \<and> - 10 \<le> vy (Photo_chaosPos rnd cp) \<and> vy (Photo_chaosPos rnd cp) < 10"
proof -
  have u: "0 \<le> rnd m" "rnd m < 1" for m
    using assms by (simp_all add: unit_draws_def)
  have fol: "triple_at (chaosPositions (snd (Foliage_useMemo rnd c))) i
      = spec_shell 15 10 (rnd (c + 7 * i + 3)) (rnd (c + 7 * i + 4)) (rnd (c + 7 * i + 5))"
    if "i < Foliage_count"
    using that by (rule Foliage_chaos)
  have orn: "heap s ! chaosPos (data s ! k)
      = spec_shell 10 15 (rnd (c + uuid_draws + 13 * k + 3)) (rnd (c + uuid_draws + 13 * k + 4))
          (rnd (c + uuid_draws + 13 * k + 5))"
    if "Ornaments_mount rnd colorPalette count c = Inr s" "k < length (data s)"
    using that by (rule Ornaments_chaos)
  have rad: "Rmin \<le> Rmin + rnd n * Rrange \<and> Rmin + rnd n * Rrange < Rmin + Rrange"
    if "0 < Rrange"
    using u [of n] that by (intro shell_radius)
  have ang: "0 \<le> rnd n' * (2 * pi) \<and> rnd n' * (2 * pi) < 2 * pi"
    using u [of n'] by simp
  have arg: "- 1 \<le> 2 * rnd n'' - 1 \<and> 2 * rnd n'' - 1 < 1"
    using u [of n''] by simp
  note nrm = shell_norm [where Rmin = Rmin and Rrange = Rrange and p = "rnd n" and q = "rnd n'"
      and w = "rnd n''"]
  note hgt = shell_height [OF u [of n''], where Rmin = Rmin and Rrange = Rrange and p = "rnd n"
      and q = "rnd n'"]
  note pol = Photo_chaosPos_polar [of rnd cp]
  have pang: "0 \<le> rnd (cp + 1) * (2 * pi) \<and> rnd (cp + 1) * (2 * pi) < 2 * pi"
    using u [of "cp + 1"] by simp
  note cyl = Photo_chaosPos_cylinder [of rnd cp]
  have pr: "20 \<le> 20 + rnd cp * 10 \<and> 20 + rnd cp * 10 < 30"
    using u [of cp] by simp
  have py: "- 10 \<le> vy (Photo_chaosPos rnd cp) \<and> vy (Photo_chaosPos rnd cp) < 10"
    unfolding cyl(2) using u [of "cp + 2"] by simp
  from fol orn rad ang arg nrm hgt pol pang cyl pr py show ?thesis
    by blast
qed

text \<open>
  The witness: on the draws of the scene of one ornament, foliage vertex 0 and the
  ornament are at the pole of their shells, and the photo that draws from call 12 on is
  half a turn round its cylinder, at \<open>(-20, -10, 0)\<close>.
\<close>

theorem C4_chaos_positions_witness:
  "triple_at (chaosPositions (snd (Foliage_useMemo spin_draws 0))) 0 = Vec3 0 0 (- 15)
   \<and> heap one_ornament ! chaosPos (data one_ornament ! 0) = Vec3 0 0 (- 10)
   \<and> Photo_chaosPos spin_draws 12 = Vec3 (- 20) (- 10) 0"
proof -
  have i: "0 < Foliage_count"
    by (simp add: Foliage_count_def)
  have k: "0 < length (data one_ornament)"
    by (simp add: one_ornament_def)
  note t = C4_chaos_positions [OF unit_spin_draws, where i = 0 and c = 0
      and colorPalette = "[''#FFD700'']" and count = 1 and s = one_ornament and k = 0
      and cp = 12]
  have a: "triple_at (chaosPositions (snd (Foliage_useMemo spin_draws 0))) 0 = Vec3 0 0 (- 15)"
    using t i by (simp add: spin_draws_def spec_shell_def Let_def)
  have b: "heap one_ornament ! chaosPos (data one_ornament ! 0) = Vec3 0 0 (- 10)"
    using t mount_one_ornament k by (simp add: spin_draws_def spec_shell_def Let_def uuid_draws_def)
  have "Photo_chaosPos spin_draws 12
           = Vec3 ((20 + spin_draws 12 * 10) * cos (spin_draws (12 + 1) * (2 * pi)))
                  ((spin_draws (12 + 2) - 1 / 2) * 20)
                  ((20 + spin_draws 12 * 10) * sin (spin_draws (12 + 1) * (2 * pi)))"
    using t by blast
  then have c: "Photo_chaosPos spin_draws 12 = Vec3 (- 20) (- 10) 0"
    by (simp add: spin_draws_def)
  from a b c show ?thesis by blast
qed

text \<open>
  The claim as stated fails for the photos: on the draws \<open>9/10, 0, 0\<close> the chaos
  position of a photo is \<open>(29, -10, 0)\<close>, where the shell rule gives \<open>(0, 0, -29)\<close>; its
  distance from the origin is above 30, so no draws of the shell rule with
  \<open>Rmin = 20\<close>, \<open>Rrange = 10\<close> give it.
\<close>

theorem C4_photo_outside_shell:
  "Photo_chaosPos far_draws 0 = Vec3 29 (- 10) 0
   \<and> spec_shell 20 10 (far_draws 0) (far_draws 1) (far_draws 2) = Vec3 0 0 (- 29)
   \<and> \<not> (\<exists>u1 u2 u3. 0 \<le> u1 \<and> u1 < 1 \<and> Photo_chaosPos far_draws 0 = spec_shell 20 10 u1 u2 u3)"
proof -
  have a: "Photo_chaosPos far_draws 0 = Vec3 29 (- 10) 0"
    by (simp add: Photo_chaosPos_def far_draws_def Let_def)
  have b: "spec_shell 20 10 (far_draws 0) (far_draws 1) (far_draws 2) = Vec3 0 0 (- 29)"
    by (simp add: spec_shell_def far_draws_def Let_def)
  have c: "Photo_chaosPos far_draws 0 \<noteq> spec_shell 20 10 u1 u2 u3" if "0 \<le> u1" "u1 < 1"
    for u1 u2 u3 :: real
  proof
    assume eq: "Photo_chaosPos far_draws 0 = spec_shell 20 10 u1 u2 u3"
    have "(20 + u1 * 10)\<^sup>2 < 30\<^sup>2"
      using that by (intro power_strict_mono) simp_all
    moreover have "(20 + u1 * 10)\<^sup>2 = 941"
      using shell_norm [where Rmin = 20 and Rrange = 10 and p = u1 and q = u2 and w = u3]
      by (simp add: eq [symmetric] a)
    ultimately show False by simp
  qed
  from a b c show ?thesis by blast
qed

section \<open>The spiral of photos\<close>

lemma Polaroids_body_fst: "fst (Polaroids_body rnd i st) = fst st + 1"
  by (simp add: Polaroids_body_def Let_def)

lemma Polaroids_body_snd:
  "\<exists>item. snd (Polaroids_body rnd i st) = snd st @ [item] \<and> p_position item = Polaroids_formed i"
  by (simp add: Polaroids_body_def Polaroids_formed_def Polaroids_radius_def Let_def)

lemma Polaroids_for_length:
  "length (snd (Polaroids_for rnd count i st)) = length (snd st) + (count - i)"
proof (induction rnd count i st rule: Polaroids_for.induct)
  case (1 rnd count i st)
  show ?case
  proof (cases "i < count")
    case True
    from Polaroids_body_snd [of rnd i st]
    have "length (snd (Polaroids_body rnd i st)) = Suc (length (snd st))"
      by auto
    with "1.IH" [OF True] True show ?thesis
      by (subst Polaroids_for.simps) simp
  next
    case False
    then show ?thesis
      by (subst Polaroids_for.simps) simp
  qed
qed

lemma Polaroids_for_prefix:
  "k < length (snd st) \<Longrightarrow> snd (Polaroids_for rnd count i st) ! k = snd st ! k"
proof (induction rnd count i st rule: Polaroids_for.induct)
  case (1 rnd count i st)
  show ?case
  proof (cases "i < count")
    case True
    from Polaroids_body_snd [of rnd i st]
    obtain item where b: "snd (Polaroids_body rnd i st) = snd st @ [item]"
      by auto
    then have "k < length (snd (Polaroids_body rnd i st))"
      using "1.prems" by simp
    from "1.IH" [OF True this] b "1.prems" True show ?thesis
      by (subst Polaroids_for.simps) (simp add: nth_append)
  next
    case False
    then show ?thesis
      by (subst Polaroids_for.simps) simp
  qed
qed

lemma Polaroids_for_nth:
  "i \<le> j \<Longrightarrow> j < count \<Longrightarrow>
   p_position (snd (Polaroids_for rnd count i st) ! (length (snd st) + (j - i)))
     = Polaroids_formed j"
proof (induction rnd count i st rule: Polaroids_for.induct)
  case (1 rnd count i st)
  from "1.prems" have lt: "i < count" by simp
  let ?st = "Polaroids_body rnd i st"
  from Polaroids_body_snd [of rnd i st]
  obtain item where b: "snd ?st = snd st @ [item]" and it: "p_position item = Polaroids_formed i"
    by auto
  have unfold: "Polaroids_for rnd count i st = Polaroids_for rnd count (Suc i) ?st"
    using lt by (subst Polaroids_for.simps) simp
  show ?case
  proof (cases "j = i")
    case True
    have "length (snd st) < length (snd ?st)"
      using b by simp
    then have "snd (Polaroids_for rnd count (Suc i) ?st) ! length (snd st) = snd ?st ! length (snd st)"
      by (rule Polaroids_for_prefix)
    then show ?thesis
      using True unfold b it by simp
  next
    case False
    with "1.prems" have le: "Suc i \<le> j" by simp
    have "length (snd ?st) + (j - Suc i) = length (snd st) + (j - i)"
      using b le by simp
    with "1.IH" [OF lt le "1.prems"(2)] unfold show ?thesis
      by simp
  qed
qed

lemma Polaroids_useMemo_nth:
  "j < 12 \<Longrightarrow> p_position (snd (Polaroids_useMemo rnd c) ! j) = Polaroids_formed j"
  using Polaroids_for_nth [of 0 j 12 rnd "(c, [])"] by (simp add: Polaroids_useMemo_def)

lemma Polaroids_useMemo_length: "length (snd (Polaroids_useMemo rnd c)) = 12"
  by (simp add: Polaroids_useMemo_def Polaroids_for_length)

lemma Polaroids_radius_linear: "Polaroids_radius i = 99 / 50 + real i * (33 / 80)"
  by (simp add: Polaroids_radius_def Let_def field_simps)

lemma Polaroids_radius_grows: "i < j \<Longrightarrow> Polaroids_radius i < Polaroids_radius j"
  by (simp add: Polaroids_radius_linear)

lemma Polaroids_formed_distinct:
  assumes "i \<noteq> j"
  shows "Polaroids_formed i \<noteq> Polaroids_formed j"
proof -
  have "real i / 12 * 10 - 10 / 3 \<noteq> real j / 12 * 10 - 10 / 3"
    using assms by simp
  then show ?thesis
    by (simp add: Polaroids_formed_def)
qed

lemma Polaroids_panels_distinct:
  "i < j \<Longrightarrow> j < 12 \<Longrightarrow>
   p_position (snd (Polaroids_useMemo rnd c) ! i) \<noteq> p_position (snd (Polaroids_useMemo rnd c) ! j)"
  using Polaroids_formed_distinct [of i j] by (simp add: Polaroids_useMemo_nth)

text \<open>
  C7. The radius of the spiral is not the taper of the cone: it grows with the height.
  Panel 0, the lowest, is at the radius \<open>1.98\<close>, where the taper on the panel's
  \<^verbatim>\<open>treeHeight\<close> 10 and \<^verbatim>\<open>maxRadius\<close> 4.5 gives \<open>4.5\<close>; panel 11, the
  highest, is at the radius \<open>6.5175\<close>, above \<^verbatim>\<open>maxRadius\<close>, where the taper gives
  \<open>0.375\<close>; and the taper is 0 at the height 10. The angle \<open>i * 1.5\<close> and the height
  \<open>(i / 12) * 10 - 10 / 3\<close> are as the claim has them.
\<close>

theorem C7_photo_radius_grows_with_height:
  "p_position (snd (Polaroids_useMemo rnd c) ! 0) = Vec3 (99 / 50) (- 10 / 3) 0
   \<and> p_position (snd (Polaroids_useMemo rnd c) ! 11)
       = Vec3 (7821 / 1200 * cos (33 / 2)) (35 / 6) (7821 / 1200 * sin (33 / 2))
   \<and> Polaroids_radius 0 = 99 / 50 \<and> Polaroids_radius 11 = 7821 / 1200
   \<and> spec_radiusAtY 10 4.5 0 = 9 / 2 \<and> spec_radiusAtY 10 4.5 (11 / 12 * 10) = 3 / 8
   \<and> spec_radiusAtY 10 4.5 10 = 0"
proof -
  have r0: "Polaroids_radius 0 = 99 / 50" and r11: "Polaroids_radius 11 = 7821 / 1200"
    by (simp_all add: Polaroids_radius_linear)
  have p0: "p_position (snd (Polaroids_useMemo rnd c) ! 0) = Vec3 (99 / 50) (- 10 / 3) 0"
    using Polaroids_useMemo_nth [of 0 rnd c] by (simp add: Polaroids_formed_def r0)
  have p11: "p_position (snd (Polaroids_useMemo rnd c) ! 11)
       = Vec3 (7821 / 1200 * cos (33 / 2)) (35 / 6) (7821 / 1200 * sin (33 / 2))"
    using Polaroids_useMemo_nth [of 11 rnd c] by (simp add: Polaroids_formed_def r11)
  have t: "spec_radiusAtY 10 4.5 0 = 9 / 2" "spec_radiusAtY 10 4.5 (11 / 12 * 10) = 3 / 8"
    "spec_radiusAtY 10 4.5 10 = 0"
    by (simp_all add: spec_radiusAtY_def)
  from p0 p11 r0 r11 t show ?thesis by simp
qed


end
